theory Spec2Isabelle
  imports Main "HOL-Library.AList"
begin

section \<open>The proxy agent (pkg/envoy/agent.go)\<close>

text \<open>
  The agent supervises epochs of a proxy process. The model is sequential: the agent's
  mutex serialises \<open>Restart\<close>, the status case of the control loop and \<open>abortAll\<close>, so
  every run is an interleaving of these operations, each executed atomically on the
  agent's fields.

  Conventions of the embedding:
  \<^item> Go's \<open>int\<close> (the epoch counter) is HOL's \<open>int\<close>: the counter starts at \<open>-1\<close> and only
    ever moves by \<open>+1\<close> per spawned runner, the platform width is not fixed by the source.
  \<^item> \<open>interface{}\<close> configurations are \<open>'c config option\<close>, \<open>None\<close> being the nil
    interface (the zero value of the field \<open>currentConfig\<close>).
  \<^item> \<open>reflect.DeepEqual\<close> is structural equality of the embedded values.
  \<^item> The map \<open>activeEpochs\<close> is an association list with distinct keys; an abort channel
    (\<open>make(chan error, 1)\<close>) is the list of errors buffered in it.
  \<^item> Time is a natural number of milliseconds. The fields \<open>clock\<close> and \<open>trace\<close> are not
    fields of the Go struct: they record the time at which the agent's goroutine stands
    and the externally visible actions it has performed, in order.
\<close>

subsection \<open>Data\<close>

datatype 'c config = DrainConfig | UserConfig 'c

datatype abort_error = errAbort

type_synonym abort_chan = "abort_error list"

datatype 'c event =
    Polled nat bool
  | TimedOut nat
  | Spawned "'c config option" int
  | Slept nat
  | AbortSent int

record proxy =
  IsLive :: "nat \<Rightarrow> bool"
  tickFirst :: bool

record 'c agent =
  activeEpochs :: "(int \<times> abort_chan) list"
  currentEpoch :: int
  currentConfig :: "'c config option"
  terminationDrainDuration :: nat
  clock :: nat
  trace :: "'c event list"

definition NewAgent :: "nat \<Rightarrow> nat \<Rightarrow> 'c agent" where
  "NewAgent terminationDrain now =
     \<lparr> activeEpochs = [],
       currentEpoch = - 1,
       currentConfig = None,
       terminationDrainDuration = terminationDrain,
       clock = now,
       trace = [] \<rparr>"

definition DeepEqual :: "'a \<Rightarrow> 'a \<Rightarrow> bool" where
  "DeepEqual x y = (x = y)"

subsection \<open>Waiting for the current epoch to go live\<close>

definition pollInterval :: nat where
  "pollInterval = 500"

definition liveTimeout :: nat where
  "liveTimeout = 20 * 1000"

text \<open>
  The \<open>for { select { ... } }\<close> loop of \<open>waitUntilLive\<close>. \<open>deadline\<close> is the time at which
  \<open>timer.C\<close> becomes ready, \<open>tick\<close> the time at which \<open>interval.C\<close> becomes ready next.
  The loop takes whichever case is ready first; when both are ready at the same time Go's
  \<open>select\<close> chooses either, which is the proxy record's field \<open>tickFirst\<close>. The result is
  the time at which the loop returns and the events it produced.
\<close>

function waitLoop :: "proxy \<Rightarrow> nat \<Rightarrow> nat \<Rightarrow> nat \<times> 'c event list" where
  "waitLoop p deadline tick =
     (if deadline < tick \<or> (deadline = tick \<and> \<not> tickFirst p)
      then (deadline, [TimedOut deadline])
      else if IsLive p tick then (tick, [Polled tick True])
      else (case waitLoop p deadline (tick + pollInterval) of
              (t, evs) \<Rightarrow> (t, Polled tick False # evs)))"
  by pat_completeness auto
termination
  by (relation "measure (\<lambda>(p, deadline, tick). Suc deadline - tick)")
     (auto simp: pollInterval_def)

declare waitLoop.simps [simp del]

definition waitUntilLive :: "proxy \<Rightarrow> 'c agent \<Rightarrow> 'c agent" where
  "waitUntilLive p a =
     (if length (activeEpochs a) = 0 then a
      else if IsLive p (clock a)
      then a\<lparr> trace := trace a @ [Polled (clock a) True] \<rparr>
      else (case waitLoop p (clock a + liveTimeout) (clock a + pollInterval) of
              (t, evs) \<Rightarrow>
                a\<lparr> clock := t, trace := trace a @ Polled (clock a) False # evs \<rparr>))"

subsection \<open>Restart\<close>

definition Restart :: "proxy \<Rightarrow> 'c agent \<Rightarrow> 'c config option \<Rightarrow> 'c agent" where
  "Restart p a config =
     (if DeepEqual (currentConfig a) config then a
      else
        let a1 = waitUntilLive p a;
            epoch = currentEpoch a1 + 1
        in a1\<lparr> currentEpoch := epoch,
                currentConfig := config,
                activeEpochs := AList.update epoch [] (activeEpochs a1),
                trace := trace a1 @ [Spawned config epoch] \<rparr>)"

subsection \<open>The control loop, termination and abort\<close>

text \<open>
  The status case of \<open>Run\<close>: the exited epoch is deleted from the map (the error is only
  logged).
\<close>

definition handleStatus :: "'c agent \<Rightarrow> int \<Rightarrow> 'c agent" where
  "handleStatus a epoch = a\<lparr> activeEpochs := AList.delete epoch (activeEpochs a) \<rparr>"

text \<open>
  \<open>abortAll\<close> ranges over the map and sends \<open>errAbort\<close> on the abort channel of every
  key. Go leaves the order of a \<open>range\<close> over a map open: the order in which the keys are
  visited is the argument \<open>order\<close>, which is meant to be a permutation of the keys of the
  map (an epoch that is not a key has no channel and is passed over). A send on a channel
  whose one-slot buffer is full blocks; the model then has no result (\<open>None\<close>).
\<close>

fun abortAll_loop ::
  "int list \<Rightarrow> (int \<times> abort_chan) list \<Rightarrow> ((int \<times> abort_chan) list \<times> 'c event list) option" where
  "abortAll_loop [] m = Some (m, [])"
| "abortAll_loop (epoch # rest) m =
     (case map_of m epoch of
        None \<Rightarrow> abortAll_loop rest m
      | Some abortCh \<Rightarrow>
          if length abortCh < 1
          then (case abortAll_loop rest (AList.update epoch (abortCh @ [errAbort]) m) of
                  None \<Rightarrow> None
                | Some (m', evs) \<Rightarrow> Some (m', AbortSent epoch # evs))
          else None)"

definition abortAll :: "int list \<Rightarrow> 'c agent \<Rightarrow> 'c agent option" where
  "abortAll order a =
     (case abortAll_loop order (activeEpochs a) of
        None \<Rightarrow> None
      | Some (m, evs) \<Rightarrow> Some (a\<lparr> activeEpochs := m, trace := trace a @ evs \<rparr>))"

definition sleep :: "nat \<Rightarrow> 'c agent \<Rightarrow> 'c agent" where
  "sleep d a = a\<lparr> clock := clock a + d, trace := trace a @ [Slept d] \<rparr>"

text \<open>
  \<open>terminate\<close> calls \<open>Restart\<close>, \<open>time.Sleep\<close> and \<open>abortAll\<close>; the mutex is free between
  the calls, and \<open>Restart\<close> is public. What the rest of the program does meanwhile is the
  schedule of the drain: the \<open>Restart\<close> calls of other goroutines that take the mutex
  after the drain restart and before the sleep is over, those that take it after the sleep
  and before \<open>abortAll\<close>, and the order in which the \<open>range\<close> of \<open>abortAll\<close> visits the
  keys. (The control loop itself is inside \<open>terminate\<close>, so no status is taken from
  \<open>statusCh\<close> meanwhile.) The event \<open>Slept\<close> is recorded when the sleep is over.
\<close>

record 'c drainSchedule =
  duringDrain :: "'c config option list"
  afterDrain :: "'c config option list"
  rangeOrder :: "int list"

definition restarts :: "proxy \<Rightarrow> 'c agent \<Rightarrow> 'c config option list \<Rightarrow> 'c agent" where
  "restarts p a configs = foldl (Restart p) a configs"

text \<open>The agent at the moment \<open>abortAll\<close> of \<open>terminate\<close> takes the mutex.\<close>

definition beforeAbort :: "proxy \<Rightarrow> 'c drainSchedule \<Rightarrow> 'c agent \<Rightarrow> 'c agent" where
  "beforeAbort p sched a =
     (let a1 = Restart p a (Some DrainConfig);
          a2 = restarts p a1 (duringDrain sched);
          a3 = sleep (terminationDrainDuration a2) a2
      in restarts p a3 (afterDrain sched))"

definition terminate :: "proxy \<Rightarrow> 'c drainSchedule \<Rightarrow> 'c agent \<Rightarrow> 'c agent option" where
  "terminate p sched a = abortAll (rangeOrder sched) (beforeAbort p sched a)"

text \<open>
  \<open>Run\<close> over the cases its \<open>select\<close> takes, in order: a status received on \<open>statusCh\<close>
  (epoch and error) or the cancellation of the context. \<open>None\<close>: the loop has not
  returned (it is blocked in \<open>select\<close>, or in a send of \<open>abortAll\<close>).
\<close>

datatype select_case = StatusCase int "string option" | DoneCase

fun Run :: "proxy \<Rightarrow> 'c drainSchedule \<Rightarrow> 'c agent \<Rightarrow> select_case list \<Rightarrow> 'c agent option" where
  "Run p sched a [] = None"
| "Run p sched a (StatusCase epoch err # rest) =
     (let a' = handleStatus a epoch
      in if length (activeEpochs a') = 0 then Some a' else Run p sched a' rest)"
| "Run p sched a (DoneCase # rest) = terminate p sched a"

subsection \<open>Runs of the agent\<close>

text \<open>
  The operations that other goroutines and the control loop perform on the agent under
  its mutex, before the context is cancelled: calls of \<open>Restart\<close> and exits of epochs.
\<close>

datatype 'c agent_op = OpRestart "'c config option" | OpStatus int

fun apply_op :: "proxy \<Rightarrow> 'c agent \<Rightarrow> 'c agent_op \<Rightarrow> 'c agent" where
  "apply_op p a (OpRestart config) = Restart p a config"
| "apply_op p a (OpStatus epoch) = handleStatus a epoch"

definition run_ops :: "proxy \<Rightarrow> 'c agent \<Rightarrow> 'c agent_op list \<Rightarrow> 'c agent" where
  "run_ops p a ops = foldl (apply_op p) a ops"

text \<open>The epochs of the runners spawned so far, in the order of spawning.\<close>

fun spawnedEpochs :: "'c event list \<Rightarrow> int list" where
  "spawnedEpochs [] = []"
| "spawnedEpochs (Spawned config epoch # evs) = epoch # spawnedEpochs evs"
| "spawnedEpochs (ev # evs) = spawnedEpochs evs"

text \<open>The events of a wait: polls of \<open>IsLive\<close> and the timeout.\<close>

fun isWaitEvent :: "'c event \<Rightarrow> bool" where
  "isWaitEvent (Polled t b) = True"
| "isWaitEvent (TimedOut t) = True"
| "isWaitEvent ev = False"

text \<open>The events of \<open>Restart\<close>: those of its wait and the spawning of a runner.\<close>

fun isRestartEvent :: "'c event \<Rightarrow> bool" where
  "isRestartEvent (Polled t b) = True"
| "isRestartEvent (TimedOut t) = True"
| "isRestartEvent (Spawned config epoch) = True"
| "isRestartEvent ev = False"

text \<open>The epochs to which \<open>errAbort\<close> has been sent, in the order of sending.\<close>

fun abortsSent :: "'c event list \<Rightarrow> int list" where
  "abortsSent [] = []"
| "abortsSent (AbortSent epoch # evs) = epoch # abortsSent evs"
| "abortsSent (ev # evs) = abortsSent evs"

definition chansEmpty :: "'c agent \<Rightarrow> bool" where
  "chansEmpty a = list_all (\<lambda>(epoch, abortCh). abortCh = []) (activeEpochs a)"

text \<open>\<open>n\<close> polls that found the proxy not live, \<open>pollInterval\<close> apart, the first at \<open>t0\<close>.\<close>

definition failedPolls :: "nat \<Rightarrow> nat \<Rightarrow> 'c event list" where
  "failedPolls t0 n = map (\<lambda>k. Polled (t0 + k * pollInterval) False) [0..<n]"

text \<open>
  The epoch counter and the spawned epochs agree: the runners spawned so far have the
  epochs \<open>0, 1, ..., currentEpoch\<close>, in this order.
\<close>

definition epochsInOrder :: "'c agent \<Rightarrow> bool" where
  "epochsInOrder a =
     (- 1 \<le> currentEpoch a \<and>
      spawnedEpochs (trace a) = map int [0..<nat (currentEpoch a + 1)])"


section \<open>The discovery server bootstrap (package bootstrap)\<close>

text \<open>
  The server is built by \<open>NewServer\<close>, which runs a fixed sequence of \<open>init...\<close> functions
  on a \<open>Server\<close> value, and is started by \<open>Start\<close>, which runs the start functions that
  the \<open>init...\<close> functions have registered.

  Conventions of the embedding:
  \<^item> A Go \<open>error\<close> is its message, a \<open>string\<close>; \<open>nil\<close> is \<open>None\<close>.
  \<^item> Pointers that may be nil are \<open>option\<close>s; a dereference of a nil pointer is the
    result \<open>Panicked\<close>, a wait that never ends is the result \<open>Blocked\<close>.
  \<^item> The packages that \<open>bootstrap\<close> imports (the file reader of the mesh configuration,
    the Kubernetes client, the gRPC dialer, the network listener, ...) are not part of
    the sources at hand. What their calls return is a field of the record \<open>externals\<close>;
    every function of the model takes it as its first argument.
  \<^item> The closures that \<open>addStartFunc\<close> and \<open>addFileWatcher\<close> register are named by the
    constructors of \<open>startAction\<close> and \<open>watchCallback\<close>, one for each closure of the
    source.
\<close>

subsection \<open>Data\<close>

datatype TLSMode = TLS_DISABLE | TLS_SIMPLE | TLS_MUTUAL | TLS_ISTIO_MUTUAL | TLS_OTHER int

record TLSSettings =
  Mode :: TLSMode
  ClientCertificate :: string
  PrivateKey :: string
  CaCertificates :: string
  Sni :: string

record ConfigSource =
  Address :: string
  TlsSettings :: "TLSSettings option"

datatype IngressMode = IngressOFF | IngressDEFAULT | IngressSTRICT

record Certificate =
  SecretName :: string
  DnsNames :: "string list"

record MeshConfig =
  ConfigSources :: "ConfigSource list"
  MixerCheckServer :: string
  MixerReportServer :: string
  IngressControllerMode :: IngressMode
  Certificates :: "Certificate list"

record MeshNetworks =
  Networks :: "(string \<times> string list) list"

datatype kubeClient = KubeClient string

text \<open>The configuration stores that \<open>initConfigController\<close> can build.\<close>

datatype configStore =
    MemoryFileStore string
  | McpStore string
  | ExternalController string
  | KubeCrdController
  | IngressController
  | AggregateCache "configStore list"

record PushRequest =
  Full :: bool
  ConfigTypesUpdated :: "string list"

text \<open>
  The discovery server, as far as the bootstrap code touches it: the mesh and the
  networks of its environment and the push requests it has been handed by
  \<open>ConfigUpdate\<close>, oldest first.
\<close>

record XdsServer =
  EnvMesh :: "MeshConfig option"
  EnvMeshNetworks :: "MeshNetworks option"
  pushQueue :: "PushRequest list"

record KubeRegistry =
  registryNetworks :: "MeshNetworks option"

record Multicluster =
  clusterNetworks :: "MeshNetworks option"

record Registry =
  RegistryName :: string
  ClusterID :: string

datatype startAction =
    StartMonitor
  | StartMcpClients
  | StartConfigController
  | StartIngressSyncer
  | StartFileMonitor string
  | StartServiceControllers
  | StartXdsServer
  | StartDiscovery
  | StartSecureDiscovery
  | StartCertController

datatype watchCallback = ReloadMesh string | ReloadMeshNetworks string

record Server =
  HTTPListeningAddr :: "string option"
  GRPCListeningAddr :: "string option"
  SecureGRPCListeningAddr :: "string option"
  EnvoyXdsServer :: "XdsServer option"
  ServiceController :: "Registry list option"
  mesh :: "MeshConfig option"
  meshNetworks :: "MeshNetworks option"
  configController :: "configStore option"
  kubeClient :: "kubeClient option"
  startFuncs :: "startAction list"
  multicluster :: "Multicluster option"
  secureServers :: bool
  istioConfigStore :: "configStore option"
  kubeRegistry :: "KubeRegistry option"
  fileWatcher :: "(string \<times> watchCallback) list"
  certController :: "(string list \<times> string list \<times> string list) option"

text \<open>The server that \<open>NewServer\<close> allocates: every field has its zero value.\<close>

definition emptyServer :: Server where
  "emptyServer =
     \<lparr> HTTPListeningAddr = None, GRPCListeningAddr = None, SecureGRPCListeningAddr = None,
       EnvoyXdsServer = None, ServiceController = None, mesh = None, meshNetworks = None,
       configController = None, kubeClient = None, startFuncs = [], multicluster = None,
       secureServers = False, istioConfigStore = None, kubeRegistry = None, fileWatcher = [],
       certController = None \<rparr>"

subsection \<open>Start functions\<close>

definition addStartFunc :: "Server \<Rightarrow> startAction \<Rightarrow> Server" where
  "addStartFunc s fn = s\<lparr> startFuncs := startFuncs s @ [fn] \<rparr>"

text \<open>
  \<open>Start\<close>. What a start function does when it is called with the stop channel is given by
  \<open>run\<close>: it returns an error or nil and changes the world \<open>'w\<close> (the goroutines it has
  spawned, the listeners it serves, ...).
\<close>

fun Start_loop ::
  "(startAction \<Rightarrow> 'stop \<Rightarrow> 'w \<Rightarrow> string option \<times> 'w) \<Rightarrow> startAction list \<Rightarrow> 'stop \<Rightarrow> 'w
     \<Rightarrow> string option \<times> 'w" where
  "Start_loop run [] stop w = (None, w)"
| "Start_loop run (fn # fns) stop w =
     (case run fn stop w of
        (Some err, w') \<Rightarrow> (Some err, w')
      | (None, w') \<Rightarrow> Start_loop run fns stop w')"

definition Start ::
  "(startAction \<Rightarrow> 'stop \<Rightarrow> 'w \<Rightarrow> string option \<times> 'w) \<Rightarrow> Server \<Rightarrow> 'stop \<Rightarrow> 'w
     \<Rightarrow> string option \<times> 'w" where
  "Start run s stop w = Start_loop run (startFuncs s) stop w"

text \<open>
  The world after the start functions \<open>fns\<close> have been called one after the other, each
  in the world its predecessor left.
\<close>

definition worldAfter ::
  "(startAction \<Rightarrow> 'stop \<Rightarrow> 'w \<Rightarrow> string option \<times> 'w) \<Rightarrow> startAction list \<Rightarrow> 'stop \<Rightarrow> 'w \<Rightarrow> 'w" where
  "worldAfter run fns stop w = foldl (\<lambda>w' fn. snd (run fn stop w')) w fns"

subsection \<open>The file watcher\<close>

definition debounceAfter :: nat where
  "debounceAfter = 100"

text \<open>
  The goroutine of \<open>addFileWatcher\<close>. Its local variable \<open>timerC\<close> is \<open>None\<close> (nil: the
  \<open>select\<close> case never fires) or \<open>Some d\<close>, a timer that fires at time \<open>d\<close>. The events of
  the watched file arrive at the times of the list, in order. The loop takes whichever
  case of its \<open>select\<close> is ready first; when the timer and an event are ready at the same
  time Go chooses either, which is the argument \<open>timerFirst\<close>. The result lists the times
  at which the callback is called.
\<close>

function addFileWatcher_loop :: "bool \<Rightarrow> nat option \<Rightarrow> nat list \<Rightarrow> nat list" where
  "addFileWatcher_loop timerFirst None [] = []"
| "addFileWatcher_loop timerFirst None (e # es) =
     addFileWatcher_loop timerFirst (Some (e + debounceAfter)) es"
| "addFileWatcher_loop timerFirst (Some d) [] = [d]"
| "addFileWatcher_loop timerFirst (Some d) (e # es) =
     (if d < e \<or> (d = e \<and> timerFirst)
      then d # addFileWatcher_loop timerFirst None (e # es)
      else addFileWatcher_loop timerFirst (Some d) es)"
  by pat_completeness auto
termination
  by (relation "measure (\<lambda>(timerFirst, timerC, es).
        2 * length es + (case timerC of None \<Rightarrow> 0 | Some d \<Rightarrow> 1))") auto

definition addFileWatcher :: "Server \<Rightarrow> string \<Rightarrow> watchCallback \<Rightarrow> Server" where
  "addFileWatcher s file callback = s\<lparr> fileWatcher := fileWatcher s @ [(file, callback)] \<rparr>"

text \<open>
  The events that the channel \<open>Events(file)\<close> delivers, out of all events of the watcher,
  and the times at which the callback registered for \<open>file\<close> is called.
\<close>

definition eventsOf :: "string \<Rightarrow> (string \<times> nat) list \<Rightarrow> nat list" where
  "eventsOf file evs = map snd (filter (\<lambda>(f, t). f = file) evs)"

definition callbackTimes :: "bool \<Rightarrow> (string \<times> nat) list \<Rightarrow> string \<Rightarrow> nat list" where
  "callbackTimes timerFirst evs file = addFileWatcher_loop timerFirst None (eventsOf file evs)"

text \<open>
  The debounce as the specification words it, for comparison: every event arms the timer
  or arms it again, \<open>debounceAfter\<close> after the event.
\<close>

function rearming_loop :: "bool \<Rightarrow> nat option \<Rightarrow> nat list \<Rightarrow> nat list" where
  "rearming_loop timerFirst None [] = []"
| "rearming_loop timerFirst None (e # es) =
     rearming_loop timerFirst (Some (e + debounceAfter)) es"
| "rearming_loop timerFirst (Some d) [] = [d]"
| "rearming_loop timerFirst (Some d) (e # es) =
     (if d < e \<or> (d = e \<and> timerFirst)
      then d # rearming_loop timerFirst None (e # es)
      else rearming_loop timerFirst (Some (e + debounceAfter)) es)"
  by pat_completeness auto
termination
  by (relation "measure (\<lambda>(timerFirst, timerC, es).
        2 * length es + (case timerC of None \<Rightarrow> 0 | Some d \<Rightarrow> 1))") auto

text \<open>
  The debounce in windows, for comparison with the loop: the first event opens a window
  that closes with one call of the callback, \<open>debounceAfter\<close> after this event. The events
  that arrive before the window closes belong to it, and so does an event that arrives at
  the very time it closes when the \<open>select\<close> takes the event first. The first event after
  the window opens the next one.
\<close>

function debounceWindows :: "bool \<Rightarrow> nat list \<Rightarrow> nat list" where
  "debounceWindows timerFirst [] = []"
| "debounceWindows timerFirst (e # es) =
     (e + debounceAfter) # debounceWindows timerFirst
        (dropWhile (\<lambda>t. t < e + debounceAfter \<or> (t = e + debounceAfter \<and> \<not> timerFirst)) es)"
  by pat_completeness auto
termination
  by (relation "measure (\<lambda>(timerFirst, es). length es)")
     (auto simp add: length_dropWhile_le less_Suc_eq_le)

subsection \<open>Arguments and the imported packages\<close>

record DiscoveryServiceOptions =
  HTTPAddr :: string
  GrpcAddr :: string
  SecureGrpcAddr :: string
  MonitoringAddr :: string

record MeshArgs =
  ConfigFile :: string
  MixerAddress :: string

record ConfigArgs =
  ClusterRegistriesNamespace :: string
  KubeConfig :: string
  DomainSuffix :: string
  FileDir :: string
  DisableInstallCRDs :: bool
  Controller :: "string option"

record ServiceArgs =
  Registries :: "string list"
  ConsulServerURL :: string

record PilotArgs =
  DiscoveryOptions :: DiscoveryServiceOptions
  Namespace :: string
  Mesh :: MeshArgs
  Config :: ConfigArgs
  Service :: ServiceArgs
  MeshConfigArg :: "MeshConfig option"
  NetworksConfigFile :: string
  CtrlZOptions :: bool
  ForceStop :: bool

text \<open>What a function returns: its value, a panic, or nothing because it blocks for ever.\<close>

datatype 'a outcome = Done 'a | Failed string | Panicked | Blocked

datatype configMapResult =
    ConfigMapNotFound
  | ConfigMapError string
  | ConfigMapFound "(string \<times> string) list"

text \<open>
  The results of the calls into imported packages, by package: the readers of the mesh
  files (\<open>cmd\<close>, \<open>mesh\<close>, \<open>util\<close>), the Kubernetes client (\<open>kubelib\<close>, \<open>controller\<close>,
  \<open>clusterregistry\<close>), the configuration sources (\<open>url\<close>, \<open>os\<close>, \<open>creds\<close>, \<open>grpc\<close>,
  \<open>configaggregate\<close>, \<open>ingress\<close>), the network (\<open>envoy\<close>, \<open>net\<close>, \<open>credentials\<close>, \<open>tls\<close>,
  \<open>ioutil\<close>, \<open>features\<close>, \<open>consul\<close>), the certificates (\<open>os\<close>, \<open>chiron\<close>, \<open>ioutil\<close>), and
  the constants of the packages \<open>constants\<close>, \<open>controller2\<close> and \<open>env\<close> with
  \<open>path.Join\<close>.
\<close>

record meshExternals =
  ReadMeshConfig :: "string \<Rightarrow> string + MeshConfig"
  DefaultMeshConfig :: MeshConfig
  ApplyMeshConfigDefaults :: "string \<Rightarrow> string + MeshConfig"
  ReadMeshNetworksConfig :: "string \<Rightarrow> string + MeshNetworks"
  ResolveHostsInNetworksConfig :: "MeshNetworks \<Rightarrow> MeshNetworks"

record kubeExternals =
  CreateClientset :: "string \<Rightarrow> string + kubeClient"
  GetConfigMap :: "kubeClient \<Rightarrow> string \<Rightarrow> string \<Rightarrow> configMapResult"
  NewClient :: "string \<Rightarrow> string \<Rightarrow> string option"
  RegisterResources :: "string option"
  NewMulticluster :: "string option"

record sourceExternals =
  urlParse :: "string \<Rightarrow> string + (string \<times> string)"
  filesAppear :: "string list \<Rightarrow> bool"
  WatchFiles :: "string list \<Rightarrow> string option"
  DialContext :: "string \<Rightarrow> string option"
  MakeCache :: "configStore list \<Rightarrow> string + configStore"
  NewStatusSyncer :: "string option"

record netExternals =
  NewDiscoveryService :: "string option"
  Listen :: "string \<Rightarrow> string + string"
  NewServerTLSFromFile :: "string \<Rightarrow> string \<Rightarrow> string option"
  LoadX509KeyPair :: "string \<Rightarrow> string \<Rightarrow> string option"
  ReadFile :: "string \<Rightarrow> string option"
  CertDirFeature :: string
  NewConsulController :: "string \<Rightarrow> string option"

record certExternals =
  dirMissing :: "string \<Rightarrow> bool"
  MkdirAll :: "string \<Rightarrow> string option"
  GenKeyCertK8sCA :: "string option"
  WriteFile :: "string \<Rightarrow> string option"
  NewWebhookController :: "string option"

record packageConstants =
  podNamespaceVar :: string
  IstioSystemNamespace :: string
  IstioNamespace :: string
  IstioConfigMap :: string
  AuthCertsPath :: string
  CertChainFilename :: string
  KeyFilename :: string
  RootCertFilename :: string
  pathJoin :: "string \<Rightarrow> string \<Rightarrow> string"

record externals =
  meshPkg :: meshExternals
  kubePkg :: kubeExternals
  sourcePkg :: sourceExternals
  netPkg :: netExternals
  certPkg :: certExternals
  constPkg :: packageConstants

definition ConfigMapKey :: string where
  "ConfigMapKey = ''mesh''"

definition fsScheme :: string where
  "fsScheme = ''fs''"

definition DefaultDirectoryForKeyCert :: string where
  "DefaultDirectoryForKeyCert = ''/pilot/key-cert''"

definition PilotCertDir :: string where
  "PilotCertDir = ''/etc/certs/''"

text \<open>
  Modelled from the spec: the names of the registries, constants of the package
  \<open>serviceregistry\<close>, which is not part of the sources at hand. The specification lists
  the names \<open>Kubernetes\<close>, \<open>Consul\<close>, \<open>Mock\<close> and \<open>MCP\<close>.
\<close>

definition KubernetesRegistry :: string where
  "KubernetesRegistry = ''Kubernetes''"

definition ConsulRegistry :: string where
  "ConsulRegistry = ''Consul''"

definition MockRegistry :: string where
  "MockRegistry = ''Mock''"

definition MCPRegistry :: string where
  "MCPRegistry = ''MCP''"

text \<open>\<open>multierror.Prefix(err, prefix)\<close> and the verb \<open>%q\<close> of a string without escapes.\<close>

definition multierrorPrefix :: "string \<Rightarrow> string \<Rightarrow> string" where
  "multierrorPrefix err prefix = prefix @ '' '' @ err"

definition quoted :: "string \<Rightarrow> string" where
  "quoted x = [CHR 0x22] @ x @ [CHR 0x22]"

subsection \<open>The Kubernetes client and the mesh configuration\<close>

definition hasKubeRegistry :: "PilotArgs \<Rightarrow> bool" where
  "hasKubeRegistry args = list_ex (\<lambda>r. r = KubernetesRegistry) (Registries (Service args))"

definition initKubeClient :: "externals \<Rightarrow> PilotArgs \<Rightarrow> Server \<Rightarrow> Server outcome" where
  "initKubeClient ext args s =
     (if hasKubeRegistry args \<and> FileDir (Config args) = ''''
      then (case CreateClientset (kubePkg ext) (KubeConfig (Config args)) of
              Inl kuberr \<Rightarrow> Failed (multierrorPrefix kuberr ''failed to connect to Kubernetes API.'')
            | Inr client \<Rightarrow> Done (s\<lparr> kubeClient := Some client \<rparr>))
      else Done s)"

definition GetMeshConfig ::
  "externals \<Rightarrow> kubeClient option \<Rightarrow> string \<Rightarrow> string \<Rightarrow> string + MeshConfig" where
  "GetMeshConfig ext kube namespace name =
     (case kube of
        None \<Rightarrow> Inr (DefaultMeshConfig (meshPkg ext))
      | Some k \<Rightarrow>
          (case GetConfigMap (kubePkg ext) k namespace name of
             ConfigMapNotFound \<Rightarrow> Inr (DefaultMeshConfig (meshPkg ext))
           | ConfigMapError err \<Rightarrow> Inl err
           | ConfigMapFound cfgData \<Rightarrow>
               (case map_of cfgData ConfigMapKey of
                  None \<Rightarrow> Inl (''missing configuration map key '' @ quoted ConfigMapKey)
                | Some cfgYaml \<Rightarrow> ApplyMeshConfigDefaults (meshPkg ext) cfgYaml)))"

text \<open>
  \<open>initMesh\<close>. A mesh file that cannot be read is logged (\<open>failed to read mesh
  configuration, using default\<close>) and leaves \<open>meshConfig\<close> nil; the watcher of the file is
  registered all the same.
\<close>

definition initMesh :: "externals \<Rightarrow> PilotArgs \<Rightarrow> Server \<Rightarrow> Server outcome" where
  "initMesh ext args s =
     (case MeshConfigArg args of
        Some m \<Rightarrow> Done (s\<lparr> mesh := Some m \<rparr>)
      | None \<Rightarrow>
          let (meshConfig, s1) =
                (if ConfigFile (Mesh args) \<noteq> ''''
                 then ((case ReadMeshConfig (meshPkg ext) (ConfigFile (Mesh args)) of
                          Inl err \<Rightarrow> None
                        | Inr m \<Rightarrow> Some m),
                       addFileWatcher s (ConfigFile (Mesh args)) (ReloadMesh (ConfigFile (Mesh args))))
                 else (None, s))
          in (case meshConfig of
                Some m \<Rightarrow> Done (s1\<lparr> mesh := Some m \<rparr>)
              | None \<Rightarrow>
                  (case GetMeshConfig ext (kubeClient s1) (IstioNamespace (constPkg ext))
                          (IstioConfigMap (constPkg ext)) of
                     Inl err \<Rightarrow> Failed err
                   | Inr m \<Rightarrow>
                       Done (s1\<lparr> mesh := Some
                         (if MixerAddress (Mesh args) \<noteq> ''''
                          then m\<lparr> MixerCheckServer := MixerAddress (Mesh args),
                                  MixerReportServer := MixerAddress (Mesh args) \<rparr>
                          else m) \<rparr>))))"

definition initMeshNetworks :: "externals \<Rightarrow> PilotArgs \<Rightarrow> Server \<Rightarrow> Server outcome" where
  "initMeshNetworks ext args s =
     (if NetworksConfigFile args = '''' then Done s
      else (case ReadMeshNetworksConfig (meshPkg ext) (NetworksConfigFile args) of
              Inl err \<Rightarrow> Done s
            | Inr networks \<Rightarrow>
                Done (addFileWatcher
                  (s\<lparr> meshNetworks := Some (ResolveHostsInNetworksConfig (meshPkg ext) networks) \<rparr>)
                  (NetworksConfigFile args) (ReloadMeshNetworks (NetworksConfigFile args)))))"

subsection \<open>Reloading the mesh files\<close>

datatype logEvent =
    LogMeshReadFailed string
  | LogMeshUpdated MeshConfig
  | LogConfigSourcesChanged
  | LogNetworksReadFailed string
  | LogNetworksUpdated MeshNetworks
  | LogNetworksResolved MeshNetworks

definition fullPush :: PushRequest where
  "fullPush = \<lparr> Full = True, ConfigTypesUpdated = [] \<rparr>"

text \<open>The push requests that have been handed to the discovery server, if there is one.\<close>

definition pushes :: "Server \<Rightarrow> PushRequest list" where
  "pushes s = (case EnvoyXdsServer s of None \<Rightarrow> [] | Some x \<Rightarrow> pushQueue x)"

text \<open>
  The callback that \<open>initMesh\<close> registers for the mesh file. It returns the lines it has
  logged and the server. \<open>s.mesh.ConfigSources\<close> dereferences \<open>s.mesh\<close>.
\<close>

definition reloadMesh :: "externals \<Rightarrow> string \<Rightarrow> Server \<Rightarrow> (logEvent list \<times> Server) outcome" where
  "reloadMesh ext file s =
     (case ReadMeshConfig (meshPkg ext) file of
        Inl err \<Rightarrow> Done ([LogMeshReadFailed err], s)
      | Inr meshConfig \<Rightarrow>
          if \<not> DeepEqual (Some meshConfig) (mesh s)
          then (case mesh s of
                  None \<Rightarrow> Panicked
                | Some current \<Rightarrow>
                    let logs = LogMeshUpdated meshConfig #
                          (if \<not> DeepEqual (ConfigSources meshConfig) (ConfigSources current)
                           then [LogConfigSourcesChanged] else []);
                        s1 = s\<lparr> mesh := Some meshConfig \<rparr>
                    in (case EnvoyXdsServer s1 of
                          None \<Rightarrow> Done (logs, s1)
                        | Some x \<Rightarrow>
                            Done (logs, s1\<lparr> EnvoyXdsServer := Some
                              (x\<lparr> EnvMesh := Some meshConfig,
                                  pushQueue := pushQueue x @ [fullPush] \<rparr>) \<rparr>)))
          else Done ([], s))"

text \<open>The callback that \<open>initMeshNetworks\<close> registers for the networks file.\<close>

definition reloadMeshNetworks ::
  "externals \<Rightarrow> string \<Rightarrow> Server \<Rightarrow> (logEvent list \<times> Server) outcome" where
  "reloadMeshNetworks ext file s =
     (case ReadMeshNetworksConfig (meshPkg ext) file of
        Inl err \<Rightarrow> Done ([LogNetworksReadFailed file], s)
      | Inr networks \<Rightarrow>
          if \<not> DeepEqual (Some networks) (meshNetworks s)
          then
            let resolved = ResolveHostsInNetworksConfig (meshPkg ext) networks;
                s1 = s\<lparr> meshNetworks := Some resolved \<rparr>;
                s2 = (case kubeRegistry s1 of
                        None \<Rightarrow> s1
                      | Some r \<Rightarrow> s1\<lparr> kubeRegistry := Some (r\<lparr> registryNetworks := Some resolved \<rparr>) \<rparr>);
                s3 = (case multicluster s2 of
                        None \<Rightarrow> s2
                      | Some m \<Rightarrow> s2\<lparr> multicluster := Some (m\<lparr> clusterNetworks := Some resolved \<rparr>) \<rparr>);
                s4 = (case EnvoyXdsServer s3 of
                        None \<Rightarrow> s3
                      | Some x \<Rightarrow>
                          s3\<lparr> EnvoyXdsServer := Some
                            (x\<lparr> EnvMeshNetworks := Some resolved,
                                pushQueue := pushQueue x @ [fullPush] \<rparr>) \<rparr>)
            in Done ([LogNetworksUpdated networks, LogNetworksResolved resolved], s4)
          else Done ([], s))"

fun runCallback :: "externals \<Rightarrow> watchCallback \<Rightarrow> Server \<Rightarrow> (logEvent list \<times> Server) outcome" where
  "runCallback ext (ReloadMesh file) s = reloadMesh ext file s"
| "runCallback ext (ReloadMeshNetworks file) s = reloadMeshNetworks ext file s"

subsection \<open>Waiting for the caches before serving\<close>








subsection \<open>The configuration controller\<close>

text \<open>\<open>strings.HasPrefix\<close>, \<open>strings.Contains\<close> and \<open>strings.Join\<close>.\<close>

fun hasPrefix :: "string \<Rightarrow> string \<Rightarrow> bool" where
  "hasPrefix s [] = True"
| "hasPrefix [] (p # ps) = False"
| "hasPrefix (c # s) (p # ps) = (c = p \<and> hasPrefix s ps)"

fun stringsContains :: "string \<Rightarrow> string \<Rightarrow> bool" where
  "stringsContains [] substr = (substr = [])"
| "stringsContains (c # s) substr = (hasPrefix (c # s) substr \<or> stringsContains s substr)"

fun stringsJoin :: "string list \<Rightarrow> string \<Rightarrow> string" where
  "stringsJoin [] sep = []"
| "stringsJoin [x] sep = x"
| "stringsJoin (x # y # ys) sep = x @ sep @ stringsJoin (y # ys) sep"

text \<open>\<open>makeFileMonitor\<close> registers the start function of the monitor and returns nil.\<close>

definition makeFileMonitor :: "Server \<Rightarrow> string \<Rightarrow> Server" where
  "makeFileMonitor s fileDir = addStartFunc s (StartFileMonitor fileDir)"

definition makeKubeConfigController :: "externals \<Rightarrow> PilotArgs \<Rightarrow> string + configStore" where
  "makeKubeConfigController ext args =
     (case NewClient (kubePkg ext) (KubeConfig (Config args)) (DomainSuffix (Config args)) of
        Some err \<Rightarrow> Inl (multierrorPrefix err ''failed to open a config client.'')
      | None \<Rightarrow>
          if \<not> DisableInstallCRDs (Config args)
          then (case RegisterResources (kubePkg ext) of
                  Some err \<Rightarrow> Inl (multierrorPrefix err ''failed to register custom resources.'')
                | None \<Rightarrow> Inr KubeCrdController)
          else Inr KubeCrdController)"

text \<open>
  The part of the loop body of \<open>initMCPConfigController\<close> that connects to a source over
  gRPC. The result \<open>Done None\<close> is the \<open>continue\<close> after an invalid TLS mode, which adds no
  store. The files that a mutual TLS setting requires are awaited for as long as they do
  not exist; \<open>filesAppear\<close> says whether they all exist at some time.
\<close>

definition dialSource :: "externals \<Rightarrow> ConfigSource \<Rightarrow> configStore option outcome" where
  "dialSource ext configSource =
     (let dial = (case DialContext (sourcePkg ext) (Address configSource) of
                    Some err \<Rightarrow> Failed err
                  | None \<Rightarrow> Done (Some (McpStore (Address configSource))))
      in (case TlsSettings configSource of
            None \<Rightarrow> dial
          | Some tls \<Rightarrow>
              if Mode tls = TLS_DISABLE then dial
              else (case (case Mode tls of
                            TLS_SIMPLE \<Rightarrow> Some None
                          | TLS_MUTUAL \<Rightarrow>
                              Some (Some [CaCertificates tls, PrivateKey tls, ClientCertificate tls])
                          | TLS_ISTIO_MUTUAL \<Rightarrow>
                              Some (Some
                                [pathJoin (constPkg ext) (AuthCertsPath (constPkg ext))
                                   (RootCertFilename (constPkg ext)),
                                 pathJoin (constPkg ext) (AuthCertsPath (constPkg ext))
                                   (KeyFilename (constPkg ext)),
                                 pathJoin (constPkg ext) (AuthCertsPath (constPkg ext))
                                   (CertChainFilename (constPkg ext))])
                          | TLS_DISABLE \<Rightarrow> None
                          | TLS_OTHER n \<Rightarrow> None) of
                      None \<Rightarrow> Done None
                    | Some None \<Rightarrow> dial
                    | Some (Some requiredFiles) \<Rightarrow>
                        if \<not> filesAppear (sourcePkg ext) requiredFiles then Blocked
                        else (case WatchFiles (sourcePkg ext) requiredFiles of
                                Some err \<Rightarrow> Failed err
                              | None \<Rightarrow> dial))))"

text \<open>
  The body of the loop of \<open>initMCPConfigController\<close> for one configuration source: a
  source with the scheme \<open>fs\<close> becomes a file monitor, every other source a gRPC
  connection. The result is the server and the store to append to \<open>configStores\<close>, if
  any.
\<close>

definition configSourceStep ::
  "externals \<Rightarrow> ConfigSource \<Rightarrow> Server \<Rightarrow> (Server \<times> configStore option) outcome" where
  "configSourceStep ext configSource s =
     (let grpc = (case dialSource ext configSource of
                    Done store \<Rightarrow> Done (s, store)
                  | Failed err \<Rightarrow> Failed err
                  | Panicked \<Rightarrow> Panicked
                  | Blocked \<Rightarrow> Blocked)
      in if stringsContains (Address configSource) (fsScheme @ ''://'')
         then (case urlParse (sourcePkg ext) (Address configSource) of
                 Inl err \<Rightarrow> Failed (''invalid config URL '' @ Address configSource @ '' '' @ err)
               | Inr (scheme, path) \<Rightarrow>
                   if scheme = fsScheme
                   then (if path = ''''
                         then Failed (''invalid fs config URL '' @ Address configSource @
                                 '', contains no file path'')
                         else Done (makeFileMonitor s path, Some (MemoryFileStore path)))
                   else grpc)
         else grpc)"

text \<open>
  The loop of \<open>initMCPConfigController\<close> over the configuration sources of the mesh; the
  last argument is \<open>configStores\<close>.
\<close>

fun mcpSources ::
  "externals \<Rightarrow> ConfigSource list \<Rightarrow> Server \<Rightarrow> configStore list \<Rightarrow> (Server \<times> configStore list) outcome" where
  "mcpSources ext [] s configStores = Done (s, configStores)"
| "mcpSources ext (configSource # rest) s configStores =
     (case configSourceStep ext configSource s of
        Done (s1, None) \<Rightarrow> mcpSources ext rest s1 configStores
      | Done (s1, Some store) \<Rightarrow> mcpSources ext rest s1 (configStores @ [store])
      | Failed err \<Rightarrow> Failed err
      | Panicked \<Rightarrow> Panicked
      | Blocked \<Rightarrow> Blocked)"

definition initMCPConfigController :: "externals \<Rightarrow> PilotArgs \<Rightarrow> Server \<Rightarrow> Server outcome" where
  "initMCPConfigController ext args s =
     (case mesh s of
        None \<Rightarrow> Panicked
      | Some m \<Rightarrow>
          (case mcpSources ext (ConfigSources m) s [] of
             Done (s1, configStores) \<Rightarrow>
               (case MakeCache (sourcePkg ext) configStores of
                  Inl err \<Rightarrow> Failed err
                | Inr aggregateMcpController \<Rightarrow>
                    Done ((addStartFunc s1 StartMcpClients)
                            \<lparr> configController := Some aggregateMcpController \<rparr>))
           | Failed err \<Rightarrow> Failed err
           | Panicked \<Rightarrow> Panicked
           | Blocked \<Rightarrow> Blocked))"

text \<open>
  \<open>initConfigController\<close>, in its three steps: the controller is chosen, its start
  function is registered, and in ingress mode it is wrapped together with the ingress
  controller. An ingress status syncer that cannot be made is only logged.
\<close>

definition chooseConfigController :: "externals \<Rightarrow> PilotArgs \<Rightarrow> Server \<Rightarrow> Server outcome" where
  "chooseConfigController ext args s =
     (case mesh s of
        None \<Rightarrow> Panicked
      | Some m \<Rightarrow>
          if length (ConfigSources m) > 0 then initMCPConfigController ext args s
          else (case Controller (Config args) of
                  Some c \<Rightarrow> Done (s\<lparr> configController := Some (ExternalController c) \<rparr>)
                | None \<Rightarrow>
                    if FileDir (Config args) \<noteq> ''''
                    then Done ((makeFileMonitor s (FileDir (Config args)))
                                 \<lparr> configController := Some (MemoryFileStore (FileDir (Config args))) \<rparr>)
                    else (case makeKubeConfigController ext args of
                            Inl err \<Rightarrow> Failed err
                          | Inr cfgController \<Rightarrow> Done (s\<lparr> configController := Some cfgController \<rparr>))))"

definition wrapIngress :: "externals \<Rightarrow> PilotArgs \<Rightarrow> Server \<Rightarrow> Server outcome" where
  "wrapIngress ext args s =
     (case mesh s of
        None \<Rightarrow> Panicked
      | Some m \<Rightarrow>
          if hasKubeRegistry args \<and> IngressControllerMode m \<noteq> IngressOFF
          then (case configController s of
                  None \<Rightarrow> Panicked
                | Some c \<Rightarrow>
                    (case MakeCache (sourcePkg ext) [c, IngressController] of
                       Inl err \<Rightarrow> Failed err
                     | Inr configController' \<Rightarrow>
                         let s1 = s\<lparr> configController := Some configController' \<rparr>
                         in (case NewStatusSyncer (sourcePkg ext) of
                               Some errSyncer \<Rightarrow> Done s1
                             | None \<Rightarrow> Done (addStartFunc s1 StartIngressSyncer))))
          else Done s)"

definition initConfigController :: "externals \<Rightarrow> PilotArgs \<Rightarrow> Server \<Rightarrow> Server outcome" where
  "initConfigController ext args s =
     (case chooseConfigController ext args s of
        Done s1 \<Rightarrow>
          (case wrapIngress ext args (addStartFunc s1 StartConfigController) of
             Done s2 \<Rightarrow> Done (s2\<lparr> istioConfigStore := configController s2 \<rparr>)
           | Failed err \<Rightarrow> Failed err
           | Panicked \<Rightarrow> Panicked
           | Blocked \<Rightarrow> Blocked)
      | Failed err \<Rightarrow> Failed err
      | Panicked \<Rightarrow> Panicked
      | Blocked \<Rightarrow> Blocked)"

subsection \<open>The service controllers\<close>

definition mockRegistries :: "Registry list" where
  "mockRegistries =
     [\<lparr> RegistryName = ''mockAdapter1'', ClusterID = ''mockAdapter1'' \<rparr>,
      \<lparr> RegistryName = ''mockAdapter2'', ClusterID = ''mockAdapter2'' \<rparr>]"

definition serviceEntryRegistry :: Registry where
  "serviceEntryRegistry = \<lparr> RegistryName = ''ServiceEntries'', ClusterID = '''' \<rparr>"

text \<open>
  The loop of \<open>initServiceControllers\<close> over the names of the registries; \<open>registered\<close> are
  the names seen so far and \<open>serviceControllers\<close> the registries added so far.
\<close>

fun serviceRegistries ::
  "externals \<Rightarrow> PilotArgs \<Rightarrow> string list \<Rightarrow> string list \<Rightarrow> Server \<Rightarrow> Registry list
     \<Rightarrow> (Server \<times> Registry list) outcome" where
  "serviceRegistries ext args [] registered s serviceControllers = Done (s, serviceControllers)"
| "serviceRegistries ext args (r # rest) registered s serviceControllers =
     (if r \<in> set registered then serviceRegistries ext args rest registered s serviceControllers
      else if r = MockRegistry
      then serviceRegistries ext args rest (r # registered) s (serviceControllers @ mockRegistries)
      else if r = KubernetesRegistry
      then serviceRegistries ext args rest (r # registered)
             (s\<lparr> kubeRegistry := Some \<lparr> registryNetworks = None \<rparr> \<rparr>)
             (serviceControllers @
                [\<lparr> RegistryName = KubernetesRegistry, ClusterID = KubernetesRegistry \<rparr>])
      else if r = ConsulRegistry
      then (case NewConsulController (netPkg ext) (ConsulServerURL (Service args)) of
              Some conerr \<Rightarrow> Failed (''failed to create Consul controller: '' @ conerr)
            | None \<Rightarrow>
                serviceRegistries ext args rest (r # registered) s
                  (serviceControllers @ [\<lparr> RegistryName = ConsulRegistry, ClusterID = '''' \<rparr>]))
      else if r = MCPRegistry
      then serviceRegistries ext args rest (r # registered) s serviceControllers
      else Failed (''service registry '' @ r @ '' is not supported''))"

definition initServiceControllers :: "externals \<Rightarrow> PilotArgs \<Rightarrow> Server \<Rightarrow> Server outcome" where
  "initServiceControllers ext args s =
     (case serviceRegistries ext args (Registries (Service args)) [] s [] of
        Done (s1, serviceControllers) \<Rightarrow>
          Done (addStartFunc
                  (s1\<lparr> ServiceController := Some (serviceControllers @ [serviceEntryRegistry]) \<rparr>)
                  StartServiceControllers)
      | Failed err \<Rightarrow> Failed err
      | Panicked \<Rightarrow> Panicked
      | Blocked \<Rightarrow> Blocked)"

subsection \<open>The discovery service\<close>

text \<open>
  \<open>initSecureGrpcServer\<close>; the call \<open>s.EnvoyXdsServer.Register\<close> dereferences the discovery
  server.
\<close>

definition initSecureGrpcServer :: "externals \<Rightarrow> Server \<Rightarrow> Server outcome" where
  "initSecureGrpcServer ext s =
     (let certDir = (if CertDirFeature (netPkg ext) = '''' then PilotCertDir
                     else CertDirFeature (netPkg ext));
          ca = pathJoin (constPkg ext) certDir (RootCertFilename (constPkg ext));
          key = pathJoin (constPkg ext) certDir (KeyFilename (constPkg ext));
          cert = pathJoin (constPkg ext) certDir (CertChainFilename (constPkg ext))
      in (case NewServerTLSFromFile (netPkg ext) cert key of
            Some err \<Rightarrow> Failed err
          | None \<Rightarrow>
              (case LoadX509KeyPair (netPkg ext) cert key of
                 Some err \<Rightarrow> Failed err
               | None \<Rightarrow>
                   (case ReadFile (netPkg ext) ca of
                      Some err \<Rightarrow> Failed err
                    | None \<Rightarrow>
                        (case EnvoyXdsServer s of
                           None \<Rightarrow> Panicked
                         | Some x \<Rightarrow> Done (s\<lparr> secureServers := True \<rparr>))))))"

text \<open>
  \<open>initDiscoveryService\<close>. The listeners are made by \<open>net.Listen\<close> here, while the server
  is built; the start functions \<open>StartDiscovery\<close> and \<open>StartSecureDiscovery\<close> only serve
  them.
\<close>

definition secureDiscovery :: "externals \<Rightarrow> PilotArgs \<Rightarrow> Server \<Rightarrow> Server outcome" where
  "secureDiscovery ext args s =
     (if SecureGrpcAddr (DiscoveryOptions args) \<noteq> ''''
      then (case initSecureGrpcServer ext s of
              Done s1 \<Rightarrow>
                (case Listen (netPkg ext) (SecureGrpcAddr (DiscoveryOptions args)) of
                   Inl err \<Rightarrow> Failed err
                 | Inr secureGrpcListener \<Rightarrow>
                     Done (addStartFunc (s1\<lparr> SecureGRPCListeningAddr := Some secureGrpcListener \<rparr>)
                             StartSecureDiscovery))
            | Failed err \<Rightarrow> Failed (''secure grpc server: '' @ err)
            | Panicked \<Rightarrow> Panicked
            | Blocked \<Rightarrow> Blocked)
      else Done s)"

definition initDiscoveryService :: "externals \<Rightarrow> PilotArgs \<Rightarrow> Server \<Rightarrow> Server outcome" where
  "initDiscoveryService ext args s =
     (case NewDiscoveryService (netPkg ext) of
        Some err \<Rightarrow> Failed (''failed to create discovery service: '' @ err)
      | None \<Rightarrow>
          let s1 = s\<lparr> EnvoyXdsServer := Some
                     \<lparr> EnvMesh = mesh s, EnvMeshNetworks = meshNetworks s, pushQueue = [] \<rparr> \<rparr>;
              s2 = (case kubeRegistry s1 of
                      None \<Rightarrow> s1
                    | Some r \<Rightarrow>
                        s1\<lparr> kubeRegistry := Some (r\<lparr> registryNetworks := meshNetworks s1 \<rparr>) \<rparr>);
              s3 = addStartFunc s2 StartXdsServer
          in (case Listen (netPkg ext) (HTTPAddr (DiscoveryOptions args)) of
                Inl err \<Rightarrow> Failed err
              | Inr listener \<Rightarrow>
                  (case Listen (netPkg ext) (GrpcAddr (DiscoveryOptions args)) of
                     Inl err \<Rightarrow> Failed err
                   | Inr grpcListener \<Rightarrow>
                       secureDiscovery ext args
                         (addStartFunc
                            (s3\<lparr> HTTPListeningAddr := Some listener,
                                 GRPCListeningAddr := Some grpcListener \<rparr>)
                            StartDiscovery))))"

subsection \<open>The monitor, the cluster registries and the certificate controller\<close>

definition initMonitor :: "externals \<Rightarrow> PilotArgs \<Rightarrow> Server \<Rightarrow> Server outcome" where
  "initMonitor ext args s = Done (addStartFunc s StartMonitor)"

definition initClusterRegistries :: "externals \<Rightarrow> PilotArgs \<Rightarrow> Server \<Rightarrow> Server outcome" where
  "initClusterRegistries ext args s =
     (if hasKubeRegistry args
      then (case NewMulticluster (kubePkg ext) of
              Some err \<Rightarrow> Failed err
            | None \<Rightarrow> Done (s\<lparr> multicluster := Some \<lparr> clusterNetworks = meshNetworks s \<rparr> \<rparr>))
      else Done s)"

text \<open>
  The loop of \<open>initCertController\<close> over the certificates of the mesh. Its state is the
  three lists and the flag \<open>pilotCertGenerated\<close>; the result \<open>Done None\<close> is a \<open>return nil\<close>
  from inside the loop, after an error that is only logged. Every method of the client
  \<open>k8sClient\<close> dereferences it.
\<close>

fun certificates ::
  "externals \<Rightarrow> PilotArgs \<Rightarrow> kubeClient option \<Rightarrow> Certificate list
     \<Rightarrow> string list \<times> string list \<times> string list \<times> bool
     \<Rightarrow> (string list \<times> string list \<times> string list \<times> bool) option outcome" where
  "certificates ext args k8sClient [] acc = Done (Some acc)"
| "certificates ext args k8sClient (c # rest) (secretNames, dnsNames, namespaces, pilotCertGenerated) =
     (let name = stringsJoin (DnsNames c) '',''
      in if length name = 0
         then certificates ext args k8sClient rest (secretNames, dnsNames, namespaces, pilotCertGenerated)
         else if length (SecretName c) > 0
         then certificates ext args k8sClient rest
                (secretNames @ [SecretName c], dnsNames @ [name], namespaces @ [Namespace args],
                 pilotCertGenerated)
         else if \<not> pilotCertGenerated
         then (case (if dirMissing (certPkg ext) DefaultDirectoryForKeyCert
                     then MkdirAll (certPkg ext) DefaultDirectoryForKeyCert else None) of
                 Some err \<Rightarrow>
                   Failed (''err to create directory '' @ DefaultDirectoryForKeyCert @ '': '' @ err)
               | None \<Rightarrow>
                   (case k8sClient of
                      None \<Rightarrow> Panicked
                    | Some k \<Rightarrow>
                        (case GenKeyCertK8sCA (certPkg ext) of
                           Some err \<Rightarrow> Done None
                         | None \<Rightarrow>
                             (case WriteFile (certPkg ext)
                                     (pathJoin (constPkg ext) DefaultDirectoryForKeyCert ''cert-chain.pem'') of
                                Some err \<Rightarrow> Done None
                              | None \<Rightarrow>
                                  (case WriteFile (certPkg ext)
                                          (pathJoin (constPkg ext) DefaultDirectoryForKeyCert ''root.pem'') of
                                     Some err \<Rightarrow> Done None
                                   | None \<Rightarrow>
                                       (case WriteFile (certPkg ext)
                                               (pathJoin (constPkg ext) DefaultDirectoryForKeyCert ''key.pem'') of
                                          Some err \<Rightarrow> Done None
                                        | None \<Rightarrow>
                                            certificates ext args k8sClient rest
                                              (secretNames, dnsNames, namespaces, True)))))))
         else certificates ext args k8sClient rest
                (secretNames, dnsNames, namespaces, pilotCertGenerated))"

definition initCertController :: "externals \<Rightarrow> PilotArgs \<Rightarrow> Server \<Rightarrow> Server outcome" where
  "initCertController ext args s =
     (case mesh s of
        None \<Rightarrow> Done s
      | Some m \<Rightarrow>
          if length (Certificates m) = 0 then Done s
          else (case certificates ext args (kubeClient s) (Certificates m) ([], [], [], False) of
                  Done None \<Rightarrow> Done s
                | Done (Some (secretNames, dnsNames, namespaces, pilotCertGenerated)) \<Rightarrow>
                    (case kubeClient s of
                       None \<Rightarrow> Panicked
                     | Some k \<Rightarrow>
                         (case NewWebhookController (certPkg ext) of
                            Some err \<Rightarrow> Failed (''failed to create certificate controller: '' @ err)
                          | None \<Rightarrow>
                              Done (addStartFunc
                                      (s\<lparr> certController := Some (secretNames, dnsNames, namespaces) \<rparr>)
                                      StartCertController)))
                | Failed err \<Rightarrow> Failed err
                | Panicked \<Rightarrow> Panicked
                | Blocked \<Rightarrow> Blocked))"

subsection \<open>NewServer\<close>

text \<open>
  One stage of \<open>NewServer\<close>: \<open>if err := s.init(&args); err != nil { return nil,
  fmt.Errorf("prefix: %v", err) }\<close>, followed by the stages after it.
\<close>

definition stage :: "string \<Rightarrow> Server outcome \<Rightarrow> (Server \<Rightarrow> Server outcome) \<Rightarrow> Server outcome" where
  "stage prefix r rest =
     (case r of
        Done s \<Rightarrow> rest s
      | Failed err \<Rightarrow> Failed (prefix @ '': '' @ err)
      | Panicked \<Rightarrow> Panicked
      | Blocked \<Rightarrow> Blocked)"

text \<open>The defaults that \<open>NewServer\<close> writes into its arguments.\<close>

definition defaultArgs :: "externals \<Rightarrow> PilotArgs \<Rightarrow> PilotArgs" where
  "defaultArgs ext args =
     (let args1 = (if Namespace args = ''''
                   then args\<lparr> Namespace := podNamespaceVar (constPkg ext) \<rparr> else args)
      in if ClusterRegistriesNamespace (Config args1) = ''''
         then (if Namespace args1 \<noteq> ''''
               then args1\<lparr> Config := (Config args1)\<lparr> ClusterRegistriesNamespace := Namespace args1 \<rparr> \<rparr>
               else args1\<lparr> Config := (Config args1)
                         \<lparr> ClusterRegistriesNamespace := IstioSystemNamespace (constPkg ext) \<rparr> \<rparr>)
         else args1)"

definition NewServer :: "externals \<Rightarrow> PilotArgs \<Rightarrow> Server outcome" where
  "NewServer ext args0 =
     (let args = defaultArgs ext args0
      in stage ''kube client'' (initKubeClient ext args emptyServer) (\<lambda>s.
         stage ''mesh'' (initMesh ext args s) (\<lambda>s.
         stage ''mesh networks'' (initMeshNetworks ext args s) (\<lambda>s.
         stage ''config controller'' (initConfigController ext args s) (\<lambda>s.
         stage ''service controllers'' (initServiceControllers ext args s) (\<lambda>s.
         stage ''discovery service'' (initDiscoveryService ext args s) (\<lambda>s.
         stage ''monitor'' (initMonitor ext args s) (\<lambda>s.
         stage ''cluster registries'' (initClusterRegistries ext args s) (\<lambda>s.
         stage ''certificate controller'' (initCertController ext args s) Done)))))))))"

subsection \<open>An example environment\<close>

text \<open>
  An environment for the examples below: the mesh file and the networks file cannot be
  parsed, no configuration map is found, and every other call into the imported packages
  succeeds. The arguments name a mesh file and Consul as the only service registry.
\<close>

definition exampleMesh :: MeshConfig where
  "exampleMesh =
     \<lparr> ConfigSources = [], MixerCheckServer = ''mixer:9091'', MixerReportServer = ''mixer:9091'',
       IngressControllerMode = IngressOFF, Certificates = [] \<rparr>"

definition exampleExternals :: externals where
  "exampleExternals =
     \<lparr> meshPkg =
         \<lparr> ReadMeshConfig = (\<lambda>file. Inl ''cannot parse mesh config''),
           DefaultMeshConfig = exampleMesh,
           ApplyMeshConfigDefaults = (\<lambda>yaml. Inr exampleMesh),
           ReadMeshNetworksConfig = (\<lambda>file. Inl ''cannot parse mesh networks''),
           ResolveHostsInNetworksConfig = (\<lambda>networks. networks) \<rparr>,
       kubePkg =
         \<lparr> CreateClientset = (\<lambda>kubeconfig. Inr (KubeClient kubeconfig)),
           GetConfigMap = (\<lambda>client namespace name. ConfigMapNotFound),
           NewClient = (\<lambda>kubeconfig domainSuffix. None),
           RegisterResources = None,
           NewMulticluster = None \<rparr>,
       sourcePkg =
         \<lparr> urlParse = (\<lambda>address. Inl ''missing protocol scheme''),
           filesAppear = (\<lambda>files. True),
           WatchFiles = (\<lambda>files. None),
           DialContext = (\<lambda>address. None),
           MakeCache = (\<lambda>stores. Inr (AggregateCache stores)),
           NewStatusSyncer = None \<rparr>,
       netPkg =
         \<lparr> NewDiscoveryService = None,
           Listen = (\<lambda>address. Inr address),
           NewServerTLSFromFile = (\<lambda>cert key. None),
           LoadX509KeyPair = (\<lambda>cert key. None),
           ReadFile = (\<lambda>file. None),
           CertDirFeature = '''',
           NewConsulController = (\<lambda>url. None) \<rparr>,
       certPkg =
         \<lparr> dirMissing = (\<lambda>dir. False),
           MkdirAll = (\<lambda>dir. None),
           GenKeyCertK8sCA = None,
           WriteFile = (\<lambda>file. None),
           NewWebhookController = None \<rparr>,
       constPkg =
         \<lparr> podNamespaceVar = '''',
           IstioSystemNamespace = ''istio-system'',
           IstioNamespace = ''istio-system'',
           IstioConfigMap = ''istio'',
           AuthCertsPath = ''/etc/certs/'',
           CertChainFilename = ''cert-chain.pem'',
           KeyFilename = ''key.pem'',
           RootCertFilename = ''root-cert.pem'',
           pathJoin = (\<lambda>dir file. dir @ file) \<rparr> \<rparr>"

definition exampleArgs :: PilotArgs where
  "exampleArgs =
     \<lparr> DiscoveryOptions =
         \<lparr> HTTPAddr = '':8080'', GrpcAddr = '':15010'', SecureGrpcAddr = '''',
           MonitoringAddr = '':15014'' \<rparr>,
       Namespace = ''istio-system'',
       Mesh = \<lparr> ConfigFile = ''/etc/istio/config/mesh'', MixerAddress = '''' \<rparr>,
       Config =
         \<lparr> ClusterRegistriesNamespace = ''istio-system'', KubeConfig = '''',
           DomainSuffix = ''cluster.local'',
           FileDir = '''', DisableInstallCRDs = False, Controller = None \<rparr>,
       Service = \<lparr> Registries = [ConsulRegistry], ConsulServerURL = ''consul:8500'' \<rparr>,
       MeshConfigArg = None,
       NetworksConfigFile = '''',
       CtrlZOptions = False,
       ForceStop = False \<rparr>"

section \<open>Properties of the agent\<close>

lemma spawnedEpochs_append:
  "spawnedEpochs (xs @ ys) = spawnedEpochs xs @ spawnedEpochs ys"
  by (induction xs rule: spawnedEpochs.induct) simp_all

lemma spawnedEpochs_wait:
  "list_all isWaitEvent evs \<Longrightarrow> spawnedEpochs evs = []"
  by (induction evs rule: spawnedEpochs.induct) simp_all

lemma waitLoop_events:
  "waitLoop p deadline tick = (t, evs) \<Longrightarrow> list_all isWaitEvent evs"
proof (induction p deadline tick arbitrary: t evs rule: waitLoop.induct)
  case (1 p deadline tick)
  show ?case
  proof (cases "deadline < tick \<or> (deadline = tick \<and> \<not> tickFirst p)")
    case True
    with "1.prems" show ?thesis by (auto simp: waitLoop.simps [of p deadline tick])
  next
    case stay: False
    show ?thesis
    proof (cases "IsLive p tick")
      case True
      with stay "1.prems" show ?thesis by (auto simp: waitLoop.simps [of p deadline tick])
    next
      case False
      obtain t' evs' where w: "waitLoop p deadline (tick + pollInterval) = (t', evs' :: 'a event list)"
        by (cases "waitLoop p deadline (tick + pollInterval) :: nat \<times> 'a event list") auto
      from "1.IH" [OF stay False w] have "list_all isWaitEvent evs'" .
      moreover from stay False w "1.prems" have "evs = Polled tick False # evs'"
        by (auto simp add: waitLoop.simps [of p deadline tick])
      ultimately show ?thesis by simp
    qed
  qed
qed

lemma failedPolls_0: "failedPolls t 0 = []"
  by (simp add: failedPolls_def)

lemma failedPolls_Suc:
  "failedPolls t (Suc n) = Polled t False # failedPolls (t + pollInterval) n"
proof -
  have "[0..<Suc n] = 0 # map Suc [0..<n]"
    by (simp add: upt_conv_Cons map_Suc_upt del: upt_Suc)
  then show ?thesis
    by (simp add: failedPolls_def comp_def add.assoc del: upt_Suc)
qed

lemma waitLoop_spec:
  "waitLoop p d t = (t', evs) \<Longrightarrow>
   \<exists>n. (\<forall>k<n. \<not> IsLive p (t + k * pollInterval) \<and> t + k * pollInterval \<le> d) \<and>
       ((evs = failedPolls t n @ [Polled t' True] \<and> t' = t + n * pollInterval \<and>
           IsLive p t' \<and> t' \<le> d) \<or>
        (evs = failedPolls t n @ [TimedOut d] \<and> t' = d \<and> d \<le> t + n * pollInterval))"
proof (induction p d t arbitrary: t' evs rule: waitLoop.induct)
  case (1 p d t)
  show ?case
  proof (cases "d < t \<or> (d = t \<and> \<not> tickFirst p)")
    case True
    with "1.prems" have "evs = [TimedOut d]" "t' = d" "d \<le> t"
      by (auto simp: waitLoop.simps [of p d t])
    then show ?thesis
      by (intro exI [of _ 0]) (simp add: failedPolls_0)
  next
    case stay: False
    then have le: "t \<le> d" by auto
    show ?thesis
    proof (cases "IsLive p t")
      case True
      with stay "1.prems" have "evs = [Polled t True]" "t' = t"
        by (auto simp: waitLoop.simps [of p d t])
      with True le show ?thesis
        by (intro exI [of _ 0]) (simp add: failedPolls_0)
    next
      case False
      obtain t1 evs1 where w: "waitLoop p d (t + pollInterval) = (t1, evs1 :: 'a event list)"
        by (cases "waitLoop p d (t + pollInterval) :: nat \<times> 'a event list") auto
      from stay False w "1.prems" have ev: "evs = Polled t False # evs1" and t1: "t' = t1"
        by (auto simp add: waitLoop.simps [of p d t])
      from "1.IH" [OF stay False w] obtain n where
        n1: "\<forall>k<n. \<not> IsLive p (t + pollInterval + k * pollInterval) \<and> t + pollInterval + k * pollInterval \<le> d"
        and n2: "(evs1 = failedPolls (t + pollInterval) n @ [Polled t1 True] \<and>
                  t1 = t + pollInterval + n * pollInterval \<and> IsLive p t1 \<and> t1 \<le> d) \<or>
                 (evs1 = failedPolls (t + pollInterval) n @ [TimedOut d] \<and> t1 = d \<and>
                  d \<le> t + pollInterval + n * pollInterval)"
        by blast
      have a: "\<forall>k<Suc n. \<not> IsLive p (t + k * pollInterval) \<and> t + k * pollInterval \<le> d"
      proof (intro allI impI)
        fix k assume k: "k < Suc n"
        show "\<not> IsLive p (t + k * pollInterval) \<and> t + k * pollInterval \<le> d"
        proof (cases k)
          case 0
          with False le show ?thesis by simp
        next
          case (Suc j)
          with k have "j < n" by simp
          with n1 have "\<not> IsLive p (t + pollInterval + j * pollInterval) \<and> t + pollInterval + j * pollInterval \<le> d"
            by blast
          with Suc show ?thesis by (simp add: add.assoc)
        qed
      qed
      from n2 ev t1 have b:
        "(evs = failedPolls t (Suc n) @ [Polled t' True] \<and> t' = t + Suc n * pollInterval \<and>
            IsLive p t' \<and> t' \<le> d) \<or>
         (evs = failedPolls t (Suc n) @ [TimedOut d] \<and> t' = d \<and> d \<le> t + Suc n * pollInterval)"
        by (auto simp: failedPolls_Suc add.assoc)
      from a b show ?thesis by (intro exI [of _ "Suc n"]) blast
    qed
  qed
qed

lemma waitUntilLive_fields:
  "currentEpoch (waitUntilLive p a) = currentEpoch a"
  "currentConfig (waitUntilLive p a) = currentConfig a"
  "activeEpochs (waitUntilLive p a) = activeEpochs a"
  "terminationDrainDuration (waitUntilLive p a) = terminationDrainDuration a"
  by (simp_all add: waitUntilLive_def split: prod.splits)

lemma waitUntilLive_trace:
  "\<exists>evs. trace (waitUntilLive p a) = trace a @ evs \<and> list_all isWaitEvent evs"
proof (cases "length (activeEpochs a) = 0 \<or> IsLive p (clock a)")
  case True
  then show ?thesis by (auto simp: waitUntilLive_def)
next
  case False
  obtain t evs where w: "waitLoop p (clock a + liveTimeout) (clock a + pollInterval) = (t, evs :: 'a event list)"
    by (cases "waitLoop p (clock a + liveTimeout) (clock a + pollInterval) :: nat \<times> 'a event list") auto
  from waitLoop_events [OF w] have "list_all isWaitEvent (Polled (clock a) False # evs)" by simp
  with False w show ?thesis by (auto simp: waitUntilLive_def)
qed

lemma waitUntilLive_spawned:
  "spawnedEpochs (trace (waitUntilLive p a)) = spawnedEpochs (trace a)"
proof -
  obtain evs where "trace (waitUntilLive p a) = trace a @ evs" "list_all isWaitEvent evs"
    using waitUntilLive_trace by blast
  then show ?thesis by (simp add: spawnedEpochs_append spawnedEpochs_wait)
qed

lemma Restart_spawns:
  "\<not> DeepEqual (currentConfig a) c \<Longrightarrow>
   currentEpoch (Restart p a c) = currentEpoch a + 1 \<and>
   currentConfig (Restart p a c) = c \<and>
   spawnedEpochs (trace (Restart p a c)) = spawnedEpochs (trace a) @ [currentEpoch a + 1]"
  by (simp add: Restart_def Let_def waitUntilLive_fields waitUntilLive_spawned spawnedEpochs_append)

lemma Restart_noop: "DeepEqual (currentConfig a) c \<Longrightarrow> Restart p a c = a"
  by (simp add: Restart_def)

lemma epochsInOrder_NewAgent: "epochsInOrder (NewAgent d now)"
  by (simp add: epochsInOrder_def NewAgent_def)

lemma epochsInOrder_Restart:
  assumes "epochsInOrder a" shows "epochsInOrder (Restart p a c)"
proof (cases "DeepEqual (currentConfig a) c")
  case True
  with assms show ?thesis by (simp add: Restart_noop)
next
  case False
  from assms have ge: "- 1 \<le> currentEpoch a"
    and sp: "spawnedEpochs (trace a) = map int [0..<nat (currentEpoch a + 1)]"
    by (simp_all add: epochsInOrder_def)
  from ge have n: "nat (currentEpoch a + 1 + 1) = Suc (nat (currentEpoch a + 1))" by simp
  from ge have i: "int (nat (currentEpoch a + 1)) = currentEpoch a + 1" by simp
  have u: "map int [0..<Suc (nat (currentEpoch a + 1))] =
      map int [0..<nat (currentEpoch a + 1)] @ [currentEpoch a + 1]"
    using i by simp
  from Restart_spawns [OF False, of p] have
    e: "currentEpoch (Restart p a c) = currentEpoch a + 1" and
    s: "spawnedEpochs (trace (Restart p a c)) = spawnedEpochs (trace a) @ [currentEpoch a + 1]"
    by simp_all
  have "nat (currentEpoch (Restart p a c) + 1) = Suc (nat (currentEpoch a + 1))"
    using n e by simp
  then show ?thesis
    unfolding epochsInOrder_def using ge e s sp u by simp
qed

lemma epochsInOrder_handleStatus:
  "epochsInOrder a \<Longrightarrow> epochsInOrder (handleStatus a epoch)"
  by (simp add: epochsInOrder_def handleStatus_def)

lemma epochsInOrder_run_ops:
  "epochsInOrder a \<Longrightarrow> epochsInOrder (run_ops p a ops)"
  unfolding run_ops_def
proof (induction ops arbitrary: a)
  case Nil
  then show ?case by simp
next
  case (Cons x ops)
  have "epochsInOrder (apply_op p a x)"
    using Cons.prems by (cases x) (simp_all add: epochsInOrder_Restart epochsInOrder_handleStatus)
  then show ?case using Cons.IH by simp
qed

subsection \<open>Epoch numbering\<close>

text \<open>
  Claim C1. An agent created by \<open>NewAgent\<close> has the epoch counter \<open>-1\<close>. A call of
  \<open>Restart\<close> that spawns a runner (its configuration differs from the current one) gives
  the runner the epoch \<open>currentEpoch + 1\<close> and stores it in the counter; a call that spawns
  none leaves the counter alone. Hence, after any sequence of \<open>Restart\<close> calls on a new
  agent (interleaved in any way with exits of epochs handled by the control loop), the
  epochs of the spawned runners are \<open>0, 1, 2, ...\<close> in order, without gap or reuse, and
  the counter is the last of them.
\<close>

theorem epochs_strictly_incremented:
  "currentEpoch (NewAgent d now :: 'c agent) = - 1 \<and>
   (\<not> DeepEqual (currentConfig a) c \<longrightarrow>
      currentEpoch (Restart p a c) = currentEpoch a + 1 \<and>
      spawnedEpochs (trace (Restart p a c)) = spawnedEpochs (trace a) @ [currentEpoch a + 1]) \<and>
   (DeepEqual (currentConfig a) c \<longrightarrow>
      currentEpoch (Restart p a c) = currentEpoch a \<and>
      spawnedEpochs (trace (Restart p a c)) = spawnedEpochs (trace a)) \<and>
   spawnedEpochs (trace (run_ops p (NewAgent d now :: 'c agent) ops)) =
     map int [0..<length (spawnedEpochs (trace (run_ops p (NewAgent d now :: 'c agent) ops)))] \<and>
   currentEpoch (run_ops p (NewAgent d now :: 'c agent) ops) =
     int (length (spawnedEpochs (trace (run_ops p (NewAgent d now :: 'c agent) ops)))) - 1"
proof -
  have "epochsInOrder (run_ops p (NewAgent d now :: 'c agent) ops)"
    by (rule epochsInOrder_run_ops) (rule epochsInOrder_NewAgent)
  then have r: "spawnedEpochs (trace (run_ops p (NewAgent d now :: 'c agent) ops)) =
      map int [0..<nat (currentEpoch (run_ops p (NewAgent d now :: 'c agent) ops) + 1)]"
    and g: "- 1 \<le> currentEpoch (run_ops p (NewAgent d now :: 'c agent) ops)"
    by (simp_all add: epochsInOrder_def)
  have l: "length (spawnedEpochs (trace (run_ops p (NewAgent d now :: 'c agent) ops))) =
      nat (currentEpoch (run_ops p (NewAgent d now :: 'c agent) ops) + 1)"
    by (subst r) simp
  have 1: "currentEpoch (NewAgent d now :: 'c agent) = - 1" by (simp add: NewAgent_def)
  show ?thesis
    using 1 r g l Restart_spawns [of a c p] Restart_noop [of a c p] by auto
qed

theorem epochs_strictly_incremented_witness:
  "\<not> DeepEqual (currentConfig (NewAgent 0 0 :: nat agent)) (Some (UserConfig 1)) \<and>
   currentEpoch (Restart \<lparr>IsLive = \<lambda>t. True, tickFirst = False\<rparr>
      (NewAgent 0 0 :: nat agent) (Some (UserConfig 1))) = 0 \<and>
   DeepEqual (currentConfig (NewAgent 0 0 :: nat agent)) None \<and>
   currentEpoch (Restart \<lparr>IsLive = \<lambda>t. True, tickFirst = False\<rparr>
      (NewAgent 0 0 :: nat agent) None) = - 1 \<and>
   spawnedEpochs (trace (run_ops \<lparr>IsLive = \<lambda>t. True, tickFirst = False\<rparr>
      (NewAgent 0 0 :: nat agent)
      [OpRestart (Some (UserConfig 1)), OpRestart (Some (UserConfig 2)), OpStatus 0,
       OpRestart (Some (UserConfig 2)), OpRestart (Some (UserConfig 3))])) = [0, 1, 2]"
  using epochs_strictly_incremented
    [of 0 0 "NewAgent 0 0 :: nat agent" "Some (UserConfig 1)"
        "\<lparr>IsLive = \<lambda>t. True, tickFirst = False\<rparr>"
        "[OpRestart (Some (UserConfig 1)), OpRestart (Some (UserConfig 2)), OpStatus 0,
          OpRestart (Some (UserConfig 2)), OpRestart (Some (UserConfig 3))]"]
    epochs_strictly_incremented
    [of 0 0 "NewAgent 0 0 :: nat agent" "None"
        "\<lparr>IsLive = \<lambda>t. True, tickFirst = False\<rparr>" "[]"]
  by (simp add: run_ops_def Restart_def waitUntilLive_def handleStatus_def NewAgent_def
      DeepEqual_def Let_def AList.update.simps AList.delete_eq)

subsection \<open>Equal configurations\<close>

text \<open>
  Claim C2, as stated, fails: \<open>Restart(c)\<close> followed by \<open>Restart(c')\<close> with \<open>c'\<close> deep-equal
  to \<open>c\<close> does not always spawn exactly one runner. On a new agent the current
  configuration is nil, so \<open>Restart(nil)\<close> twice spawns no runner at all.
\<close>

theorem equal_config_one_runner_counterexample:
  "DeepEqual (None :: nat config option) None \<and>
   spawnedEpochs (trace (Restart \<lparr>IsLive = \<lambda>t. True, tickFirst = False\<rparr>
      (Restart \<lparr>IsLive = \<lambda>t. True, tickFirst = False\<rparr> (NewAgent 0 0 :: nat agent) None)
      None)) = [] \<and>
   length (spawnedEpochs (trace (Restart \<lparr>IsLive = \<lambda>t. True, tickFirst = False\<rparr>
      (Restart \<lparr>IsLive = \<lambda>t. True, tickFirst = False\<rparr> (NewAgent 0 0 :: nat agent) None)
      None))) \<noteq> 1"
  by (simp add: Restart_def NewAgent_def DeepEqual_def)

text \<open>
  Claim C2, amended. \<open>Restart\<close> with a configuration deep-equal to the current one
  returns the agent unchanged: no runner is spawned, the epoch counter, the active epochs
  and every other field stay as they are. Hence \<open>Restart(c)\<close> followed by \<open>Restart(c')\<close>
  with \<open>c'\<close> deep-equal to \<open>c\<close> spawns exactly one runner (with epoch \<open>currentEpoch + 1\<close>)
  when \<open>c\<close> is not deep-equal to the configuration current before the first call, and
  none when it is.
\<close>

theorem equal_config_is_noop:
  "(DeepEqual (currentConfig a) c \<longrightarrow> Restart p a c = a) \<and>
   (\<not> DeepEqual (currentConfig a) c \<and> DeepEqual c c' \<longrightarrow>
      spawnedEpochs (trace (Restart p (Restart p a c) c')) =
        spawnedEpochs (trace a) @ [currentEpoch a + 1]) \<and>
   (DeepEqual (currentConfig a) c \<and> DeepEqual c c' \<longrightarrow>
      spawnedEpochs (trace (Restart p (Restart p a c) c')) = spawnedEpochs (trace a))"
proof (intro conjI impI)
  assume "DeepEqual (currentConfig a) c"
  then show "Restart p a c = a" by (rule Restart_noop)
next
  assume h: "\<not> DeepEqual (currentConfig a) c \<and> DeepEqual c c'"
  then have "currentConfig (Restart p a c) = c"
    and s: "spawnedEpochs (trace (Restart p a c)) = spawnedEpochs (trace a) @ [currentEpoch a + 1]"
    using Restart_spawns [of a c p] by simp_all
  with h have "DeepEqual (currentConfig (Restart p a c)) c'" by simp
  then have "Restart p (Restart p a c) c' = Restart p a c" by (rule Restart_noop)
  with s show "spawnedEpochs (trace (Restart p (Restart p a c) c')) =
      spawnedEpochs (trace a) @ [currentEpoch a + 1]" by simp
next
  assume h: "DeepEqual (currentConfig a) c \<and> DeepEqual c c'"
  then have 1: "Restart p a c = a" by (simp add: Restart_noop)
  from h have "DeepEqual (currentConfig a) c'" by (simp add: DeepEqual_def)
  then have "Restart p a c' = a" by (rule Restart_noop)
  with 1 show "spawnedEpochs (trace (Restart p (Restart p a c) c')) = spawnedEpochs (trace a)"
    by simp
qed

theorem equal_config_is_noop_witness:
  "DeepEqual (currentConfig (NewAgent 0 0 :: nat agent)) None \<and>
   Restart \<lparr>IsLive = \<lambda>t. True, tickFirst = False\<rparr> (NewAgent 0 0 :: nat agent) None =
     NewAgent 0 0 \<and>
   \<not> DeepEqual (currentConfig (NewAgent 0 0 :: nat agent)) (Some (UserConfig 7)) \<and>
   DeepEqual (Some (UserConfig (7::nat))) (Some (UserConfig 7)) \<and>
   spawnedEpochs (trace (Restart \<lparr>IsLive = \<lambda>t. True, tickFirst = False\<rparr>
      (Restart \<lparr>IsLive = \<lambda>t. True, tickFirst = False\<rparr> (NewAgent 0 0 :: nat agent)
         (Some (UserConfig 7))) (Some (UserConfig 7)))) = [0] \<and>
   spawnedEpochs (trace (Restart \<lparr>IsLive = \<lambda>t. True, tickFirst = False\<rparr>
      (Restart \<lparr>IsLive = \<lambda>t. True, tickFirst = False\<rparr> (NewAgent 0 0 :: nat agent)
         None) None)) = []"
  using equal_config_is_noop
    [of "NewAgent 0 0 :: nat agent" "None" "\<lparr>IsLive = \<lambda>t. True, tickFirst = False\<rparr>" "None"]
    equal_config_is_noop
    [of "NewAgent 0 0 :: nat agent" "Some (UserConfig 7)"
        "\<lparr>IsLive = \<lambda>t. True, tickFirst = False\<rparr>" "Some (UserConfig 7)"]
  by (simp add: NewAgent_def DeepEqual_def)

subsection \<open>Waiting for the current epoch\<close>

lemma failedPolls_shift:
  "Polled t False # failedPolls (t + pollInterval) n = failedPolls t (Suc n)"
  by (simp only: failedPolls_Suc)

text \<open>
  Claim C3. Let \<open>Restart\<close> be called with a configuration unequal to the current one.
  If no epoch is active, no wait occurs: the clock does not move and the runner of the
  next epoch is spawned at once. If an epoch is active, \<open>IsLive\<close> is polled at the time of
  the call and then every \<open>pollInterval = 500\<close> ms; the first \<open>n\<close> polls find the proxy
  not live, and then either a poll within \<open>liveTimeout = 20000\<close> ms finds it live, or
  the timeout fires \<open>liveTimeout\<close> after the call. In both cases the epoch counter is
  incremented and the runner of the next epoch is spawned only after the wait has ended:
  on timeout \<open>Restart\<close> proceeds anyway.
\<close>

theorem restart_waits_for_live:
  assumes ne: "\<not> DeepEqual (currentConfig a) c"
  shows "pollInterval = 500 \<and> liveTimeout = 20000 \<and>
    currentEpoch (Restart p a c) = currentEpoch a + 1 \<and>
    (activeEpochs a = [] \<longrightarrow>
       clock (Restart p a c) = clock a \<and>
       trace (Restart p a c) = trace a @ [Spawned c (currentEpoch a + 1)]) \<and>
    (activeEpochs a \<noteq> [] \<longrightarrow>
       (\<exists>n. (\<forall>k<n. \<not> IsLive p (clock a + k * pollInterval) \<and> k * pollInterval \<le> liveTimeout) \<and>
          ((IsLive p (clock a + n * pollInterval) \<and> n * pollInterval \<le> liveTimeout \<and>
            clock (Restart p a c) = clock a + n * pollInterval \<and>
            trace (Restart p a c) =
              trace a @ failedPolls (clock a) n @
                [Polled (clock a + n * pollInterval) True, Spawned c (currentEpoch a + 1)]) \<or>
           (liveTimeout \<le> n * pollInterval \<and>
            clock (Restart p a c) = clock a + liveTimeout \<and>
            trace (Restart p a c) =
              trace a @ failedPolls (clock a) n @
                [TimedOut (clock a + liveTimeout), Spawned c (currentEpoch a + 1)]))))"
proof -
  have cst: "pollInterval = 500" "liveTimeout = 20000"
    by (simp_all add: pollInterval_def liveTimeout_def)
  have ep: "currentEpoch (Restart p a c) = currentEpoch a + 1"
    using Restart_spawns [OF ne] by simp
  have R: "Restart p a c =
      (waitUntilLive p a)\<lparr> currentEpoch := currentEpoch a + 1, currentConfig := c,
        activeEpochs := AList.update (currentEpoch a + 1) [] (activeEpochs a),
        trace := trace (waitUntilLive p a) @ [Spawned c (currentEpoch a + 1)] \<rparr>"
    using ne by (simp add: Restart_def Let_def waitUntilLive_fields)
  have tr: "trace (Restart p a c) = trace (waitUntilLive p a) @ [Spawned c (currentEpoch a + 1)]"
    and cl: "clock (Restart p a c) = clock (waitUntilLive p a)"
    by (simp_all add: R)
  have empty: "activeEpochs a = [] \<longrightarrow>
       clock (Restart p a c) = clock a \<and>
       trace (Restart p a c) = trace a @ [Spawned c (currentEpoch a + 1)]"
    by (simp add: tr cl waitUntilLive_def)
  have active: "\<exists>n. (\<forall>k<n. \<not> IsLive p (clock a + k * pollInterval) \<and> k * pollInterval \<le> liveTimeout) \<and>
          ((IsLive p (clock a + n * pollInterval) \<and> n * pollInterval \<le> liveTimeout \<and>
            clock (Restart p a c) = clock a + n * pollInterval \<and>
            trace (Restart p a c) =
              trace a @ failedPolls (clock a) n @
                [Polled (clock a + n * pollInterval) True, Spawned c (currentEpoch a + 1)]) \<or>
           (liveTimeout \<le> n * pollInterval \<and>
            clock (Restart p a c) = clock a + liveTimeout \<and>
            trace (Restart p a c) =
              trace a @ failedPolls (clock a) n @
                [TimedOut (clock a + liveTimeout), Spawned c (currentEpoch a + 1)]))"
    if act: "activeEpochs a \<noteq> []"
  proof (cases "IsLive p (clock a)")
    case True
    with act have "waitUntilLive p a = a\<lparr> trace := trace a @ [Polled (clock a) True] \<rparr>"
      by (simp add: waitUntilLive_def)
    with True show ?thesis
      by (intro exI [of _ 0]) (simp add: tr cl failedPolls_0)
  next
    case False
    obtain t evs where w:
      "waitLoop p (clock a + liveTimeout) (clock a + pollInterval) = (t, evs :: 'a event list)"
      by (cases "waitLoop p (clock a + liveTimeout) (clock a + pollInterval) :: nat \<times> 'a event list") auto
    with act False have W: "waitUntilLive p a =
        a\<lparr> clock := t, trace := trace a @ Polled (clock a) False # evs \<rparr>"
      by (simp add: waitUntilLive_def)
    from waitLoop_spec [OF w] obtain m where
      m1: "\<forall>k<m. \<not> IsLive p (clock a + pollInterval + k * pollInterval) \<and>
                 clock a + pollInterval + k * pollInterval \<le> clock a + liveTimeout"
      and m2: "(evs = failedPolls (clock a + pollInterval) m @ [Polled t True] \<and>
                t = clock a + pollInterval + m * pollInterval \<and> IsLive p t \<and>
                t \<le> clock a + liveTimeout) \<or>
               (evs = failedPolls (clock a + pollInterval) m @ [TimedOut (clock a + liveTimeout)] \<and>
                t = clock a + liveTimeout \<and>
                clock a + liveTimeout \<le> clock a + pollInterval + m * pollInterval)"
      by blast
    have polls: "\<forall>k<Suc m. \<not> IsLive p (clock a + k * pollInterval) \<and> k * pollInterval \<le> liveTimeout"
    proof (intro allI impI)
      fix k assume k: "k < Suc m"
      show "\<not> IsLive p (clock a + k * pollInterval) \<and> k * pollInterval \<le> liveTimeout"
      proof (cases k)
        case 0
        with False show ?thesis by simp
      next
        case (Suc j)
        with k have "j < m" by simp
        with m1 have "\<not> IsLive p (clock a + pollInterval + j * pollInterval) \<and>
            clock a + pollInterval + j * pollInterval \<le> clock a + liveTimeout" by blast
        with Suc show ?thesis by (simp add: add.assoc)
      qed
    qed
    from m2 have fin:
      "(IsLive p (clock a + Suc m * pollInterval) \<and> Suc m * pollInterval \<le> liveTimeout \<and>
        clock (Restart p a c) = clock a + Suc m * pollInterval \<and>
        trace (Restart p a c) =
          trace a @ failedPolls (clock a) (Suc m) @
            [Polled (clock a + Suc m * pollInterval) True, Spawned c (currentEpoch a + 1)]) \<or>
       (liveTimeout \<le> Suc m * pollInterval \<and>
        clock (Restart p a c) = clock a + liveTimeout \<and>
        trace (Restart p a c) =
          trace a @ failedPolls (clock a) (Suc m) @
            [TimedOut (clock a + liveTimeout), Spawned c (currentEpoch a + 1)])"
    proof
      assume l: "evs = failedPolls (clock a + pollInterval) m @ [Polled t True] \<and>
                t = clock a + pollInterval + m * pollInterval \<and> IsLive p t \<and>
                t \<le> clock a + liveTimeout"
      then have "Polled (clock a) False # evs = failedPolls (clock a) (Suc m) @ [Polled t True]"
        by (simp add: failedPolls_Suc)
      with l show ?thesis by (intro disjI1) (auto simp add: tr cl W add.assoc)
    next
      assume l: "evs = failedPolls (clock a + pollInterval) m @ [TimedOut (clock a + liveTimeout)] \<and>
                t = clock a + liveTimeout \<and>
                clock a + liveTimeout \<le> clock a + pollInterval + m * pollInterval"
      then have "Polled (clock a) False # evs =
          failedPolls (clock a) (Suc m) @ [TimedOut (clock a + liveTimeout)]"
        by (simp add: failedPolls_Suc)
      with l show ?thesis by (intro disjI2) (auto simp add: tr cl W add.assoc)
    qed
    from polls fin show ?thesis by (intro exI [of _ "Suc m"]) blast
  qed
  from cst ep empty active show ?thesis by blast
qed

theorem restart_waits_for_live_witness:
  "\<not> DeepEqual (currentConfig (NewAgent 0 0 :: nat agent)) (Some (UserConfig 1)) \<and>
   activeEpochs (NewAgent 0 0 :: nat agent) = [] \<and>
   clock (Restart \<lparr>IsLive = \<lambda>t. False, tickFirst = False\<rparr>
            (NewAgent 0 0 :: nat agent) (Some (UserConfig 1))) = 0 \<and>
   trace (Restart \<lparr>IsLive = \<lambda>t. False, tickFirst = False\<rparr>
            (NewAgent 0 0 :: nat agent) (Some (UserConfig 1))) = [Spawned (Some (UserConfig 1)) 0] \<and>
   \<not> DeepEqual
       (currentConfig (\<lparr>activeEpochs = [(0, [])], currentEpoch = 0,
          currentConfig = Some (UserConfig 1), terminationDrainDuration = 0, clock = 0,
          trace = []\<rparr> :: nat agent))
       (Some (UserConfig 2)) \<and>
   activeEpochs (\<lparr>activeEpochs = [(0, [])], currentEpoch = 0,
          currentConfig = Some (UserConfig 1), terminationDrainDuration = 0, clock = 0,
          trace = []\<rparr> :: nat agent) \<noteq> [] \<and>
   clock (Restart \<lparr>IsLive = \<lambda>t. 1000 \<le> t, tickFirst = False\<rparr>
            (\<lparr>activeEpochs = [(0, [])], currentEpoch = 0,
              currentConfig = Some (UserConfig 1), terminationDrainDuration = 0, clock = 0,
              trace = []\<rparr> :: nat agent) (Some (UserConfig 2))) = 1000 \<and>
   trace (Restart \<lparr>IsLive = \<lambda>t. 1000 \<le> t, tickFirst = False\<rparr>
            (\<lparr>activeEpochs = [(0, [])], currentEpoch = 0,
              currentConfig = Some (UserConfig 1), terminationDrainDuration = 0, clock = 0,
              trace = []\<rparr> :: nat agent) (Some (UserConfig 2))) =
     [Polled 0 False, Polled 500 False, Polled 1000 True, Spawned (Some (UserConfig 2)) 1] \<and>
   clock (Restart \<lparr>IsLive = \<lambda>t. False, tickFirst = False\<rparr>
            (\<lparr>activeEpochs = [(0, [])], currentEpoch = 0,
              currentConfig = Some (UserConfig 1), terminationDrainDuration = 0, clock = 0,
              trace = []\<rparr> :: nat agent) (Some (UserConfig 2))) = 20000 \<and>
   currentEpoch (Restart \<lparr>IsLive = \<lambda>t. False, tickFirst = False\<rparr>
            (\<lparr>activeEpochs = [(0, [])], currentEpoch = 0,
              currentConfig = Some (UserConfig 1), terminationDrainDuration = 0, clock = 0,
              trace = []\<rparr> :: nat agent) (Some (UserConfig 2))) = 1"
proof -
  let ?never = "\<lparr>IsLive = \<lambda>t. False, tickFirst = False\<rparr>"
  let ?later = "\<lparr>IsLive = \<lambda>t. 1000 \<le> t, tickFirst = False\<rparr>"
  let ?a = "\<lparr>activeEpochs = [(0, [])], currentEpoch = 0,
              currentConfig = Some (UserConfig 1), terminationDrainDuration = 0, clock = 0,
              trace = []\<rparr> :: nat agent"
  have n0: "\<not> DeepEqual (currentConfig (NewAgent 0 0 :: nat agent)) (Some (UserConfig 1))"
    by (simp add: NewAgent_def DeepEqual_def)
  have e0: "activeEpochs (NewAgent 0 0 :: nat agent) = []"
    by (simp add: NewAgent_def)
  have c0: "clock (NewAgent 0 0 :: nat agent) = 0" "trace (NewAgent 0 0 :: nat agent) = []"
     "currentEpoch (NewAgent 0 0 :: nat agent) = - 1"
    by (simp_all add: NewAgent_def)
  from restart_waits_for_live [OF n0, of ?never] e0 c0
  have r0: "clock (Restart ?never (NewAgent 0 0 :: nat agent) (Some (UserConfig 1))) = 0"
    "trace (Restart ?never (NewAgent 0 0 :: nat agent) (Some (UserConfig 1))) =
       [Spawned (Some (UserConfig 1)) 0]"
    by simp_all
  have n1: "\<not> DeepEqual (currentConfig ?a) (Some (UserConfig 2))"
    by (simp add: DeepEqual_def)
  have e1: "activeEpochs ?a \<noteq> []" by simp
  have w: "waitLoop ?later 20000 500 = (1000, [Polled 500 False, Polled 1000 True :: nat event])"
    by (simp add: waitLoop.simps [of _ 20000 500] waitLoop.simps [of _ 20000 1000]
        pollInterval_def)
  have r1: "clock (Restart ?later ?a (Some (UserConfig 2))) = 1000"
    "trace (Restart ?later ?a (Some (UserConfig 2))) =
     [Polled 0 False, Polled 500 False, Polled 1000 True, Spawned (Some (UserConfig 2)) 1]"
    using n1 by (simp_all add: Restart_def waitUntilLive_def Let_def w pollInterval_def
        liveTimeout_def)
  from restart_waits_for_live [OF n1, of ?never] e1
  have r2: "clock (Restart ?never ?a (Some (UserConfig 2))) = 20000"
    "currentEpoch (Restart ?never ?a (Some (UserConfig 2))) = 1"
    by auto
  from n0 e0 r0 n1 e1 r1 r2 show ?thesis by (intro conjI)
qed

subsection \<open>Termination\<close>

lemma abortsSent_append: "abortsSent (xs @ ys) = abortsSent xs @ abortsSent ys"
  by (induction xs rule: abortsSent.induct) simp_all

lemma abortsSent_restart_events: "list_all isRestartEvent evs \<Longrightarrow> abortsSent evs = []"
  by (induction evs rule: abortsSent.induct) simp_all

lemma abortsSent_map: "abortsSent (map AbortSent es) = es"
  by (induction es) simp_all

lemma isWaitEvent_isRestartEvent: "list_all isWaitEvent evs \<Longrightarrow> list_all isRestartEvent evs"
proof (induction evs)
  case Nil
  show ?case by simp
next
  case (Cons ev evs)
  then show ?case by (cases ev) simp_all
qed

lemma Restart_trace:
  "\<exists>evs. trace (Restart p a c) = trace a @ evs \<and> list_all isRestartEvent evs"
proof (cases "DeepEqual (currentConfig a) c")
  case True
  then show ?thesis by (simp add: Restart_noop)
next
  case False
  obtain evs where w: "trace (waitUntilLive p a) = trace a @ evs" "list_all isWaitEvent evs"
    using waitUntilLive_trace by blast
  from False w have "trace (Restart p a c) =
      trace a @ (evs @ [Spawned c (currentEpoch (waitUntilLive p a) + 1)])"
    by (simp add: Restart_def Let_def)
  moreover have "list_all isRestartEvent (evs @ [Spawned c (currentEpoch (waitUntilLive p a) + 1)])"
    using isWaitEvent_isRestartEvent [OF w(2)] by simp
  ultimately show ?thesis by blast
qed

lemma restarts_trace:
  "\<exists>evs. trace (restarts p a cs) = trace a @ evs \<and> list_all isRestartEvent evs"
  unfolding restarts_def
proof (induction cs arbitrary: a)
  case Nil
  show ?case by simp
next
  case (Cons c cs)
  obtain e1 where e1: "trace (Restart p a c) = trace a @ e1" "list_all isRestartEvent e1"
    using Restart_trace by blast
  obtain e2 where e2: "trace (foldl (Restart p) (Restart p a c) cs) = trace (Restart p a c) @ e2"
    "list_all isRestartEvent e2"
    using Cons.IH by blast
  from e1 e2 have "trace (foldl (Restart p) a (c # cs)) = trace a @ (e1 @ e2)"
    "list_all isRestartEvent (e1 @ e2)" by simp_all
  then show ?case by blast
qed

lemma waitUntilLive_clock: "clock a \<le> clock (waitUntilLive p a)"
proof (cases "length (activeEpochs a) = 0 \<or> IsLive p (clock a)")
  case True
  then show ?thesis by (auto simp: waitUntilLive_def)
next
  case False
  obtain t evs where w: "waitLoop p (clock a + liveTimeout) (clock a + pollInterval) = (t, evs :: 'a event list)"
    by (cases "waitLoop p (clock a + liveTimeout) (clock a + pollInterval) :: nat \<times> 'a event list") auto
  from waitLoop_spec [OF w] have "clock a \<le> t" by auto
  with False w show ?thesis by (simp add: waitUntilLive_def)
qed

lemma Restart_clock: "clock a \<le> clock (Restart p a c)"
  using waitUntilLive_clock [of a p] by (simp add: Restart_def Let_def)

lemma restarts_clock: "clock a \<le> clock (restarts p a cs)"
  unfolding restarts_def
proof (induction cs arbitrary: a)
  case Nil
  show ?case by simp
next
  case (Cons c cs)
  have "clock a \<le> clock (Restart p a c)" by (rule Restart_clock)
  also have "\<dots> \<le> clock (foldl (Restart p) (Restart p a c) cs)" by (rule Cons.IH)
  finally show ?case by simp
qed

lemma list_all_update:
  "P (k, v) \<Longrightarrow> list_all P al \<Longrightarrow> list_all P (AList.update k v al)"
  by (induction al) auto

lemma list_all_delete:
  "list_all P al \<Longrightarrow> list_all P (AList.delete k al)"
  by (induction al) auto

lemma chansEmpty_Restart: "chansEmpty a \<Longrightarrow> chansEmpty (Restart p a c)"
  by (simp add: chansEmpty_def Restart_def Let_def waitUntilLive_fields list_all_update)

lemma chansEmpty_handleStatus: "chansEmpty a \<Longrightarrow> chansEmpty (handleStatus a epoch)"
  by (simp add: chansEmpty_def handleStatus_def list_all_delete)

lemma chansEmpty_restarts: "chansEmpty a \<Longrightarrow> chansEmpty (restarts p a cs)"
  unfolding restarts_def
  by (induction cs arbitrary: a) (simp_all add: chansEmpty_Restart)

lemma chansEmpty_sleep: "chansEmpty a \<Longrightarrow> chansEmpty (sleep d a)"
  by (simp add: chansEmpty_def sleep_def)

lemma Restart_drain_duration:
  "terminationDrainDuration (Restart p a c) = terminationDrainDuration a"
  by (simp add: Restart_def Let_def waitUntilLive_fields)

lemma restarts_drain_duration:
  "terminationDrainDuration (restarts p a cs) = terminationDrainDuration a"
  unfolding restarts_def
  by (induction cs arbitrary: a) (simp_all add: Restart_drain_duration)

lemma run_ops_drain_duration:
  "terminationDrainDuration (run_ops p a ops) = terminationDrainDuration a"
  unfolding run_ops_def
proof (induction ops arbitrary: a)
  case Nil
  show ?case by simp
next
  case (Cons x ops)
  have "terminationDrainDuration (apply_op p a x) = terminationDrainDuration a"
    by (cases x) (simp_all add: Restart_drain_duration handleStatus_def)
  with Cons.IH [of "apply_op p a x"] show ?case by simp
qed

lemma run_ops_reachable:
  "chansEmpty a \<Longrightarrow> list_all isRestartEvent (trace a) \<Longrightarrow>
   chansEmpty (run_ops p a ops) \<and> list_all isRestartEvent (trace (run_ops p a ops))"
  unfolding run_ops_def
proof (induction ops arbitrary: a)
  case Nil
  then show ?case by simp
next
  case (Cons x ops)
  have "chansEmpty (apply_op p a x) \<and> list_all isRestartEvent (trace (apply_op p a x))"
  proof (cases x)
    case (OpRestart c)
    obtain evs where "trace (Restart p a c) = trace a @ evs" "list_all isRestartEvent evs"
      using Restart_trace by blast
    with Cons.prems OpRestart show ?thesis by (simp add: chansEmpty_Restart)
  next
    case (OpStatus epoch)
    with Cons.prems show ?thesis by (simp add: chansEmpty_handleStatus) (simp add: handleStatus_def)
  qed
  then show ?case using Cons.IH by simp
qed

lemma chansEmpty_map_of:
  "list_all (\<lambda>(epoch, abortCh). abortCh = []) m \<Longrightarrow> e \<in> set (map fst m) \<Longrightarrow> map_of m e = Some []"
  by (induction m) auto

lemma abortAll_loop_sends:
  "distinct order \<Longrightarrow> \<forall>e \<in> set order. map_of m e = Some [] \<Longrightarrow>
   \<exists>m'. abortAll_loop order m = Some (m', map AbortSent order) \<and>
        map fst m' = map fst m \<and>
        (\<forall>k. map_of m' k = (if k \<in> set order then Some [errAbort] else map_of m k))"
proof (induction order arbitrary: m)
  case Nil
  show ?case by simp
next
  case (Cons e rest)
  let ?m1 = "AList.update e [errAbort] m"
  from Cons.prems have me: "map_of m e = Some []" and d: "distinct rest" and ne: "e \<notin> set rest"
    by simp_all
  have "\<forall>e' \<in> set rest. map_of ?m1 e' = Some []"
    using Cons.prems ne by (auto simp: update_conv')
  from Cons.IH [OF d this] obtain m' where
    m': "abortAll_loop rest ?m1 = Some (m', map AbortSent rest :: 'a event list)"
    "map fst m' = map fst ?m1"
    "\<forall>k. map_of m' k = (if k \<in> set rest then Some [errAbort] else map_of ?m1 k)"
    by blast
  from me have "e \<in> fst ` set m"
    using map_of_eq_None_iff [of m e] by (cases "e \<in> fst ` set m") simp_all
  then have keys: "map fst ?m1 = map fst m" by (simp add: update_keys)
  have "abortAll_loop (e # rest) m = Some (m', map AbortSent (e # rest) :: 'a event list)"
    using me m'(1) by simp
  moreover have "\<forall>k. map_of m' k = (if k \<in> set (e # rest) then Some [errAbort] else map_of m k)"
    using m'(3) ne by (auto simp: update_conv')
  ultimately show ?case using m'(2) keys by auto
qed

lemma Restart_keys:
  "set (map fst (activeEpochs a)) \<subseteq> set (map fst (activeEpochs (Restart p a c)))"
  by (auto simp: Restart_def Let_def waitUntilLive_fields dom_update)

lemma restarts_keys:
  "set (map fst (activeEpochs a)) \<subseteq> set (map fst (activeEpochs (restarts p a cs)))"
  unfolding restarts_def
proof (induction cs arbitrary: a)
  case Nil
  show ?case by simp
next
  case (Cons c cs)
  have "set (map fst (activeEpochs a)) \<subseteq> set (map fst (activeEpochs (Restart p a c)))"
    by (rule Restart_keys)
  also have "\<dots> \<subseteq> set (map fst (activeEpochs (foldl (Restart p) (Restart p a c) cs)))"
    by (rule Cons.IH)
  finally show ?case by simp
qed

text \<open>
  Claim C4. Let the agent be in a state reached from \<open>NewAgent\<close> by calls of \<open>Restart\<close>
  and exits of epochs, and let the context be cancelled. The control loop then runs
  \<open>terminate\<close>, under any schedule of the drain: whatever \<open>Restart\<close> calls other goroutines
  make while the mutex is free, and in whatever order the \<open>range\<close> of \<open>abortAll\<close> visits
  the active epochs. \<open>terminate\<close> returns, and its trace is, in this order: the events of
  \<open>Restart\<close> with \<open>DrainConfig\<close>; events of concurrent \<open>Restart\<close> calls; the sleep of
  \<open>terminationDrainDuration\<close>; events of concurrent \<open>Restart\<close> calls; one send of
  \<open>errAbort\<close> for every epoch that is active when \<open>abortAll\<close> runs, in the order of the
  range. No \<open>errAbort\<close> is sent before, so every active epoch is signalled exactly once;
  afterwards its abort channel holds exactly one \<open>errAbort\<close>. The epochs active after the
  drain restart are among them, and the sends happen no earlier than
  \<open>terminationDrainDuration\<close> after the drain restart has returned.
\<close>

theorem terminate_drains_then_aborts:
  assumes reach: "a = run_ops p (NewAgent d now) ops"
    and dist: "distinct (rangeOrder sched)"
    and perm: "set (rangeOrder sched) = set (map fst (activeEpochs (beforeAbort p sched a)))"
  shows "\<exists>a' evs1 evs2.
     terminate p sched a = Some a' \<and> Run p sched a (DoneCase # rest) = Some a' \<and>
     trace a' = trace (Restart p a (Some DrainConfig)) @ evs1 @ [Slept d] @ evs2 @
        map AbortSent (rangeOrder sched) \<and>
     list_all isRestartEvent (trace (Restart p a (Some DrainConfig))) \<and>
     list_all isRestartEvent evs1 \<and> list_all isRestartEvent evs2 \<and>
     abortsSent (trace a') = rangeOrder sched \<and>
     map fst (activeEpochs a') = map fst (activeEpochs (beforeAbort p sched a)) \<and>
     (\<forall>e \<in> set (map fst (activeEpochs (beforeAbort p sched a))).
        map_of (activeEpochs a') e = Some [errAbort]) \<and>
     set (map fst (activeEpochs (Restart p a (Some DrainConfig)))) \<subseteq>
        set (map fst (activeEpochs (beforeAbort p sched a))) \<and>
     clock (Restart p a (Some DrainConfig)) + d \<le> clock a'"
proof -
  let ?a1 = "Restart p a (Some DrainConfig)"
  let ?a2 = "restarts p ?a1 (duringDrain sched)"
  let ?a3 = "sleep d ?a2"
  let ?a4 = "restarts p ?a3 (afterDrain sched)"
  have "chansEmpty (NewAgent d now :: 'a agent)"
    "list_all isRestartEvent (trace (NewAgent d now :: 'a agent))"
    by (simp_all add: chansEmpty_def NewAgent_def)
  then have inv: "chansEmpty a" "list_all isRestartEvent (trace a)"
    using run_ops_reachable [of "NewAgent d now" p ops] reach by simp_all
  have dd: "terminationDrainDuration a = d"
    using reach by (simp add: run_ops_drain_duration NewAgent_def)
  then have "terminationDrainDuration ?a2 = d"
    by (simp add: restarts_drain_duration Restart_drain_duration)
  then have B: "beforeAbort p sched a = ?a4"
    by (simp add: beforeAbort_def Let_def)
  obtain e0 where e0: "trace ?a1 = trace a @ e0" "list_all isRestartEvent e0"
    using Restart_trace by blast
  with inv(2) have t1: "list_all isRestartEvent (trace ?a1)" by simp
  obtain evs1 where evs1: "trace ?a2 = trace ?a1 @ evs1" "list_all isRestartEvent evs1"
    using restarts_trace by blast
  have t3: "trace ?a3 = trace ?a1 @ evs1 @ [Slept d]"
    using evs1(1) by (simp add: sleep_def)
  obtain evs2 where evs2: "trace ?a4 = trace ?a3 @ evs2" "list_all isRestartEvent evs2"
    using restarts_trace by blast
  have t4: "trace ?a4 = trace ?a1 @ evs1 @ [Slept d] @ evs2"
    using evs2(1) t3 by simp
  have ce: "chansEmpty ?a4"
    by (intro chansEmpty_restarts chansEmpty_sleep chansEmpty_Restart inv(1))
  have "\<forall>e \<in> set (rangeOrder sched). map_of (activeEpochs ?a4) e = Some []"
    using ce perm B chansEmpty_map_of [of "activeEpochs ?a4"]
    by (simp add: chansEmpty_def)
  from abortAll_loop_sends [OF dist this] obtain m' where
    m': "abortAll_loop (rangeOrder sched) (activeEpochs ?a4) =
           Some (m', map AbortSent (rangeOrder sched) :: 'a event list)"
    "map fst m' = map fst (activeEpochs ?a4)"
    "\<forall>k. map_of m' k = (if k \<in> set (rangeOrder sched) then Some [errAbort]
          else map_of (activeEpochs ?a4) k)"
    by blast
  let ?a' = "?a4\<lparr> activeEpochs := m', trace := trace ?a4 @ map AbortSent (rangeOrder sched) \<rparr>"
  have T: "terminate p sched a = Some ?a'"
    using m'(1) by (simp add: terminate_def B abortAll_def)
  have tr: "trace ?a' = trace ?a1 @ evs1 @ [Slept d] @ evs2 @ map AbortSent (rangeOrder sched)"
    using t4 by simp
  have ab: "abortsSent (trace ?a') = rangeOrder sched"
    using t1 evs1(2) evs2(2)
    by (simp add: tr abortsSent_append abortsSent_restart_events abortsSent_map)
  have keys: "map fst (activeEpochs ?a') = map fst (activeEpochs (beforeAbort p sched a))"
    using m'(2) B by simp
  have sent: "\<forall>e \<in> set (map fst (activeEpochs (beforeAbort p sched a))).
        map_of (activeEpochs ?a') e = Some [errAbort]"
    using m'(3) perm by simp
  have "set (map fst (activeEpochs ?a1)) \<subseteq> set (map fst (activeEpochs ?a2))"
    by (rule restarts_keys)
  also have "\<dots> = set (map fst (activeEpochs ?a3))" by (simp add: sleep_def)
  also have "\<dots> \<subseteq> set (map fst (activeEpochs ?a4))" by (rule restarts_keys)
  finally have sub: "set (map fst (activeEpochs ?a1)) \<subseteq>
      set (map fst (activeEpochs (beforeAbort p sched a)))"
    using B by simp
  have "clock ?a1 \<le> clock ?a2" by (rule restarts_clock)
  then have "clock ?a1 + d \<le> clock ?a3" by (simp add: sleep_def)
  also have "\<dots> \<le> clock ?a4" by (rule restarts_clock)
  finally have cl: "clock ?a1 + d \<le> clock ?a'" by simp
  show ?thesis
    using T tr t1 evs1(2) evs2(2) ab keys sent sub cl
    by (intro exI [of _ ?a'] exI [of _ evs1] exI [of _ evs2]) simp
qed

theorem terminate_drains_then_aborts_witness:
  "(\<lparr>activeEpochs = [(0, [])], currentEpoch = 0, currentConfig = Some (UserConfig 5),
      terminationDrainDuration = 3000, clock = 0, trace = [Spawned (Some (UserConfig 5)) 0]\<rparr>
      :: nat agent) =
     run_ops \<lparr>IsLive = \<lambda>t. True, tickFirst = False\<rparr> (NewAgent 3000 0)
       [OpRestart (Some (UserConfig 5))] \<and>
   distinct (rangeOrder
     (\<lparr>duringDrain = [Some (UserConfig 9)], afterDrain = [], rangeOrder = [2, 0, 1]\<rparr>
       :: nat drainSchedule)) \<and>
   set (rangeOrder
     (\<lparr>duringDrain = [Some (UserConfig 9)], afterDrain = [], rangeOrder = [2, 0, 1]\<rparr>
       :: nat drainSchedule)) =
     set (map fst (activeEpochs (beforeAbort \<lparr>IsLive = \<lambda>t. True, tickFirst = False\<rparr>
       \<lparr>duringDrain = [Some (UserConfig 9)], afterDrain = [], rangeOrder = [2, 0, 1]\<rparr>
       (\<lparr>activeEpochs = [(0, [])], currentEpoch = 0, currentConfig = Some (UserConfig 5),
         terminationDrainDuration = 3000, clock = 0,
         trace = [Spawned (Some (UserConfig 5)) 0]\<rparr> :: nat agent)))) \<and>
   Run \<lparr>IsLive = \<lambda>t. True, tickFirst = False\<rparr>
     \<lparr>duringDrain = [Some (UserConfig 9)], afterDrain = [], rangeOrder = [2, 0, 1]\<rparr>
     (\<lparr>activeEpochs = [(0, [])], currentEpoch = 0, currentConfig = Some (UserConfig 5),
       terminationDrainDuration = 3000, clock = 0, trace = [Spawned (Some (UserConfig 5)) 0]\<rparr>
       :: nat agent) [DoneCase] =
     Some \<lparr>activeEpochs = [(0, [errAbort]), (1, [errAbort]), (2, [errAbort])], currentEpoch = 2,
       currentConfig = Some (UserConfig 9), terminationDrainDuration = 3000, clock = 3000,
       trace = [Spawned (Some (UserConfig 5)) 0, Polled 0 True, Spawned (Some DrainConfig) 1,
                Polled 0 True, Spawned (Some (UserConfig 9)) 2,
                Slept 3000, AbortSent 2, AbortSent 0, AbortSent 1]\<rparr>"
proof -
  let ?p = "\<lparr>IsLive = \<lambda>t. True, tickFirst = False\<rparr>"
  let ?sched = "\<lparr>duringDrain = [Some (UserConfig 9)], afterDrain = [], rangeOrder = [2, 0, 1]\<rparr>
      :: nat drainSchedule"
  let ?a = "\<lparr>activeEpochs = [(0, [])], currentEpoch = 0, currentConfig = Some (UserConfig 5),
      terminationDrainDuration = 3000, clock = 0, trace = [Spawned (Some (UserConfig 5)) 0]\<rparr>
      :: nat agent"
  have r: "?a = run_ops ?p (NewAgent 3000 0) [OpRestart (Some (UserConfig 5))]"
    by (simp add: run_ops_def Restart_def waitUntilLive_def NewAgent_def DeepEqual_def Let_def)
  have B: "beforeAbort ?p ?sched ?a =
     \<lparr>activeEpochs = [(0, []), (1, []), (2, [])], currentEpoch = 2,
      currentConfig = Some (UserConfig 9), terminationDrainDuration = 3000, clock = 3000,
      trace = [Spawned (Some (UserConfig 5)) 0, Polled 0 True, Spawned (Some DrainConfig) 1,
               Polled 0 True, Spawned (Some (UserConfig 9)) 2, Slept 3000]\<rparr>"
    by (simp add: beforeAbort_def restarts_def sleep_def Restart_def waitUntilLive_def
        DeepEqual_def Let_def)
  have d: "distinct (rangeOrder ?sched)" by simp
  have s: "set (rangeOrder ?sched) = set (map fst (activeEpochs (beforeAbort ?p ?sched ?a)))"
    unfolding B by auto
  from terminate_drains_then_aborts [OF r d s, of "[]"]
  obtain a' where a': "Run ?p ?sched ?a [DoneCase] = Some a'"
    "abortsSent (trace a') = rangeOrder ?sched"
    by blast
  have R: "Run ?p ?sched ?a [DoneCase] =
     Some \<lparr>activeEpochs = [(0, [errAbort]), (1, [errAbort]), (2, [errAbort])], currentEpoch = 2,
       currentConfig = Some (UserConfig 9), terminationDrainDuration = 3000, clock = 3000,
       trace = [Spawned (Some (UserConfig 5)) 0, Polled 0 True, Spawned (Some DrainConfig) 1,
                Polled 0 True, Spawned (Some (UserConfig 9)) 2,
                Slept 3000, AbortSent 2, AbortSent 0, AbortSent 1]\<rparr>"
    unfolding Run.simps terminate_def B by (simp add: abortAll_def)
  from a' r d s R show ?thesis by (intro conjI)
qed

section \<open>Properties of the server\<close>

subsection \<open>Start\<close>

lemma all_less_Suc_shift: "(\<forall>i<Suc n. P i) \<longleftrightarrow> P 0 \<and> (\<forall>i<n. P (Suc i))"
  by (auto simp: less_Suc_eq_0_disj)

lemma ex_less_Suc_shift: "(\<exists>i<Suc n. P i) \<longleftrightarrow> P 0 \<or> (\<exists>i<n. P (Suc i))"
  by (auto simp: less_Suc_eq_0_disj)

lemma worldAfter_Nil: "worldAfter run [] stop w = w"
  by (simp add: worldAfter_def)

lemma worldAfter_Cons:
  "worldAfter run (fn # fns) stop w = worldAfter run fns stop (snd (run fn stop w))"
  by (simp add: worldAfter_def)

lemma Start_loop_nil:
  "Start_loop run fns stop w = (None, w') \<longleftrightarrow>
     (\<forall>i<length fns. fst (run (fns ! i) stop (worldAfter run (take i fns) stop w)) = None) \<and>
     w' = worldAfter run fns stop w"
proof (induction fns arbitrary: w)
  case Nil
  show ?case by (auto simp: worldAfter_Nil)
next
  case (Cons fn fns)
  obtain r w1 where r: "run fn stop w = (r, w1)" by (cases "run fn stop w")
  show ?case
  proof (cases r)
    case None
    with r have "Start_loop run (fn # fns) stop w = Start_loop run fns stop w1" by simp
    with Cons.IH [of w1] r None show ?thesis
      by (simp add: all_less_Suc_shift worldAfter_Cons worldAfter_Nil)
  next
    case (Some e)
    with r show ?thesis
      by (auto simp: all_less_Suc_shift worldAfter_Nil)
  qed
qed

lemma Start_loop_error:
  "Start_loop run fns stop w = (Some err, w') \<longleftrightarrow>
     (\<exists>i<length fns.
        (\<forall>j<i. fst (run (fns ! j) stop (worldAfter run (take j fns) stop w)) = None) \<and>
        run (fns ! i) stop (worldAfter run (take i fns) stop w) = (Some err, w'))"
proof (induction fns arbitrary: w)
  case Nil
  show ?case by simp
next
  case (Cons fn fns)
  obtain r w1 where r: "run fn stop w = (r, w1)" by (cases "run fn stop w")
  show ?case
  proof (cases r)
    case None
    with r have "Start_loop run (fn # fns) stop w = Start_loop run fns stop w1" by simp
    with Cons.IH [of w1] r None show ?thesis
      by (simp add: ex_less_Suc_shift all_less_Suc_shift worldAfter_Cons worldAfter_Nil)
  next
    case (Some e)
    let ?P = "\<lambda>j. fst (run ((fn # fns) ! j) stop (worldAfter run (take j (fn # fns)) stop w)) = None"
    let ?R = "\<lambda>i. run ((fn # fns) ! i) stop (worldAfter run (take i (fn # fns)) stop w) = (Some err, w')"
    have P0: "\<not> ?P 0" using r Some by (simp add: worldAfter_Nil)
    have R0: "?R 0 \<longleftrightarrow> e = err \<and> w1 = w'" using r Some by (simp add: worldAfter_Nil)
    have E: "(\<exists>i<length (fn # fns). (\<forall>j<i. ?P j) \<and> ?R i) \<longleftrightarrow> ?R 0"
    proof
      assume "\<exists>i<length (fn # fns). (\<forall>j<i. ?P j) \<and> ?R i"
      then obtain i where i: "\<forall>j<i. ?P j" "?R i" by blast
      show "?R 0"
      proof (cases i)
        case 0
        with i show ?thesis by simp
      next
        case (Suc k)
        with i(1) have "?P 0" by blast
        with P0 show ?thesis by contradiction
      qed
    next
      assume "?R 0"
      then show "\<exists>i<length (fn # fns). (\<forall>j<i. ?P j) \<and> ?R i"
        by (intro exI [of _ 0]) simp
    qed
    have L: "Start_loop run (fn # fns) stop w = (Some err, w') \<longleftrightarrow> e = err \<and> w1 = w'"
      using r Some by simp
    from E L R0 show ?thesis by blast
  qed
qed

text \<open>
  Claim C5. \<open>addStartFunc\<close> appends to the registered start functions, so their order is
  the order of registration. \<open>Start\<close> returns nil exactly when every registered function,
  called in this order (each in the world its predecessors left), returns nil; all of
  them have then been called. \<open>Start\<close> returns an error exactly when some registered
  function returns it after all functions before it have returned nil; the world is then
  the one this function left, so that no later function has been called.
\<close>

theorem start_runs_actions_in_order:
  "startFuncs (addStartFunc s fn) = startFuncs s @ [fn] \<and>
   (Start run s stop w = (None, w') \<longleftrightarrow>
      (\<forall>i<length (startFuncs s).
          fst (run (startFuncs s ! i) stop (worldAfter run (take i (startFuncs s)) stop w)) = None) \<and>
      w' = worldAfter run (startFuncs s) stop w) \<and>
   (Start run s stop w = (Some err, w') \<longleftrightarrow>
      (\<exists>i<length (startFuncs s).
         (\<forall>j<i. fst (run (startFuncs s ! j) stop (worldAfter run (take j (startFuncs s)) stop w)) = None) \<and>
         run (startFuncs s ! i) stop (worldAfter run (take i (startFuncs s)) stop w) = (Some err, w')))"
  unfolding Start_def
  by (intro conjI Start_loop_nil Start_loop_error) (simp add: addStartFunc_def)

theorem start_runs_actions_in_order_witness:
  "startFuncs (addStartFunc (addStartFunc (addStartFunc emptyServer StartMonitor) StartDiscovery)
      StartCertController) = [StartMonitor, StartDiscovery, StartCertController] \<and>
   Start (\<lambda>fn stop w. (if fn = StartDiscovery then Some ''listen failed'' else None, w @ [fn]))
      (addStartFunc (addStartFunc (addStartFunc emptyServer StartMonitor) StartDiscovery)
         StartCertController) () [] =
     (Some ''listen failed'', [StartMonitor, StartDiscovery]) \<and>
   Start (\<lambda>fn stop w. (None, w @ [fn]))
      (addStartFunc (addStartFunc (addStartFunc emptyServer StartMonitor) StartDiscovery)
         StartCertController) () [] =
     (None, [StartMonitor, StartDiscovery, StartCertController])"
proof -
  let ?s = "addStartFunc (addStartFunc (addStartFunc emptyServer StartMonitor) StartDiscovery)
      StartCertController"
  let ?fail = "\<lambda>fn (stop :: unit) (w :: startAction list).
      (if fn = StartDiscovery then Some ''listen failed'' else None, w @ [fn])"
  let ?ok = "\<lambda>fn (stop :: unit) (w :: startAction list). (None :: string option, w @ [fn])"
  have fs: "startFuncs ?s = [StartMonitor, StartDiscovery, StartCertController]"
    using start_runs_actions_in_order [of "addStartFunc (addStartFunc emptyServer StartMonitor) StartDiscovery" StartCertController]
    by (simp add: addStartFunc_def emptyServer_def)
  have "\<exists>i<length (startFuncs ?s).
         (\<forall>j<i. fst (?fail (startFuncs ?s ! j) () (worldAfter ?fail (take j (startFuncs ?s)) () [])) = None) \<and>
         ?fail (startFuncs ?s ! i) () (worldAfter ?fail (take i (startFuncs ?s)) () []) =
           (Some ''listen failed'', [StartMonitor, StartDiscovery])"
    unfolding fs by (intro exI [of _ 1]) (simp add: worldAfter_def)
  then have a: "Start ?fail ?s () [] = (Some ''listen failed'', [StartMonitor, StartDiscovery])"
    using start_runs_actions_in_order [of ?s StartMonitor ?fail "()" "[]"
        "[StartMonitor, StartDiscovery]" "''listen failed''"]
    by blast
  have "(\<forall>i<length (startFuncs ?s).
          fst (?ok (startFuncs ?s ! i) () (worldAfter ?ok (take i (startFuncs ?s)) () [])) = None) \<and>
      [StartMonitor, StartDiscovery, StartCertController] = worldAfter ?ok (startFuncs ?s) () []"
    unfolding fs by (simp add: worldAfter_def)
  then have b: "Start ?ok ?s () [] = (None, [StartMonitor, StartDiscovery, StartCertController])"
    using start_runs_actions_in_order [of ?s StartMonitor ?ok "()" "[]"
        "[StartMonitor, StartDiscovery, StartCertController]"]
    by blast
  from fs a b show ?thesis by (intro conjI)
qed

subsection \<open>The debounce of the file watcher\<close>

text \<open>
  Claim C6, as stated, fails: an event that arrives while the timer is pending neither
  arms the timer nor arms it again. Events at 0 ms and 60 ms lead to one callback at
  100 ms (not at 160 ms, as a timer armed again at 60 ms would give), and the burst 0, 60,
  120 ms, each event less than \<open>debounceAfter\<close> after its predecessor, leads to two
  callbacks, where the debounce of the specification makes one.
\<close>

theorem debounce_rearm_counterexample:
  "addFileWatcher_loop False None [0, 60] = [100] \<and>
   rearming_loop False None [0, 60] = [160] \<and>
   addFileWatcher_loop False None [0, 60, 120] = [100, 220] \<and>
   rearming_loop False None [0, 60, 120] = [220] \<and>
   length (addFileWatcher_loop False None [0, 60, 120]) \<noteq> 1"
  by (simp add: debounceAfter_def)

lemma pending_burst:
  "\<forall>t \<in> set es. t < d \<Longrightarrow> addFileWatcher_loop timerFirst (Some d) es = [d]"
  by (induction es) auto

lemma eventsOf_other:
  "q \<noteq> file \<Longrightarrow> eventsOf file (evs1 @ (q, t) # evs2) = eventsOf file (evs1 @ evs2)"
  by (simp add: eventsOf_def)

lemma loop_pending_windows:
  "addFileWatcher_loop timerFirst (Some d) es =
     d # debounceWindows timerFirst (dropWhile (\<lambda>t. t < d \<or> (t = d \<and> \<not> timerFirst)) es)"
proof (induction es arbitrary: d)
  case Nil
  show ?case by simp
next
  case (Cons e es)
  show ?case
  proof (cases "d < e \<or> (d = e \<and> timerFirst)")
    case True
    then have "addFileWatcher_loop timerFirst (Some d) (e # es) =
        d # addFileWatcher_loop timerFirst (Some (e + debounceAfter)) es"
      by simp
    also have "\<dots> = d # debounceWindows timerFirst (e # es)"
      by (simp add: Cons.IH)
    also have "\<dots> = d # debounceWindows timerFirst
        (dropWhile (\<lambda>t. t < d \<or> (t = d \<and> \<not> timerFirst)) (e # es))"
      using True by auto
    finally show ?thesis .
  next
    case False
    then have "addFileWatcher_loop timerFirst (Some d) (e # es) =
        addFileWatcher_loop timerFirst (Some d) es"
      by auto
    also have "\<dots> = d # debounceWindows timerFirst
        (dropWhile (\<lambda>t. t < d \<or> (t = d \<and> \<not> timerFirst)) es)"
      by (rule Cons.IH)
    also have "\<dots> = d # debounceWindows timerFirst
        (dropWhile (\<lambda>t. t < d \<or> (t = d \<and> \<not> timerFirst)) (e # es))"
      using False by auto
    finally show ?thesis .
  qed
qed

lemma loop_windows: "addFileWatcher_loop timerFirst None es = debounceWindows timerFirst es"
  by (cases es) (simp_all add: loop_pending_windows)

lemma loop_pending_head:
  "\<exists>rest. addFileWatcher_loop timerFirst (Some d) es = d # rest"
  by (simp add: loop_pending_windows)

lemma loop_pending_cover:
  "sorted es \<Longrightarrow> \<forall>e \<in> set es. d \<le> e + debounceAfter \<Longrightarrow>
   \<forall>e \<in> set es. \<exists>c \<in> set (addFileWatcher_loop timerFirst (Some d) es). e \<le> c \<and> c \<le> e + debounceAfter"
proof (induction es arbitrary: d)
  case Nil
  show ?case by simp
next
  case (Cons e es)
  have srt: "sorted es" and le: "\<forall>t \<in> set es. e \<le> t" using Cons.prems(1) by auto
  show ?case
  proof (cases "d < e \<or> (d = e \<and> timerFirst)")
    case True
    then have eq: "addFileWatcher_loop timerFirst (Some d) (e # es) =
        d # addFileWatcher_loop timerFirst (Some (e + debounceAfter)) es"
      by simp
    have inv: "\<forall>t \<in> set es. e + debounceAfter \<le> t + debounceAfter" using le by simp
    have ih: "\<forall>t \<in> set es. \<exists>c \<in> set (addFileWatcher_loop timerFirst (Some (e + debounceAfter)) es).
        t \<le> c \<and> c \<le> t + debounceAfter"
      by (rule Cons.IH [OF srt inv])
    obtain rest where hd: "addFileWatcher_loop timerFirst (Some (e + debounceAfter)) es =
        (e + debounceAfter) # rest"
      using loop_pending_head by blast
    have "\<exists>c \<in> set (addFileWatcher_loop timerFirst (Some (e + debounceAfter)) es).
        e \<le> c \<and> c \<le> e + debounceAfter"
      unfolding hd by simp
    with ih show ?thesis unfolding eq by auto
  next
    case False
    then have eq: "addFileWatcher_loop timerFirst (Some d) (e # es) =
        addFileWatcher_loop timerFirst (Some d) es"
      by auto
    have inv: "\<forall>t \<in> set es. d \<le> t + debounceAfter" using Cons.prems(2) by simp
    have ih: "\<forall>t \<in> set es. \<exists>c \<in> set (addFileWatcher_loop timerFirst (Some d) es).
        t \<le> c \<and> c \<le> t + debounceAfter"
      by (rule Cons.IH [OF srt inv])
    obtain rest where hd: "addFileWatcher_loop timerFirst (Some d) es = d # rest"
      using loop_pending_head by blast
    have "e \<le> d" using False by auto
    moreover have "d \<le> e + debounceAfter" using Cons.prems(2) by simp
    ultimately have "\<exists>c \<in> set (addFileWatcher_loop timerFirst (Some d) es).
        e \<le> c \<and> c \<le> e + debounceAfter"
      unfolding hd by auto
    with ih show ?thesis unfolding eq by auto
  qed
qed

lemma loop_cover:
  assumes "sorted es"
  shows "\<forall>e \<in> set es. \<exists>c \<in> set (addFileWatcher_loop timerFirst None es). e \<le> c \<and> c \<le> e + debounceAfter"
proof (cases es)
  case Nil
  then show ?thesis by simp
next
  case (Cons e es')
  have srt: "sorted es'" and le: "\<forall>t \<in> set es'. e \<le> t" using assms Cons by auto
  have inv: "\<forall>t \<in> set es'. e + debounceAfter \<le> t + debounceAfter" using le by simp
  have ih: "\<forall>t \<in> set es'. \<exists>c \<in> set (addFileWatcher_loop timerFirst (Some (e + debounceAfter)) es').
        t \<le> c \<and> c \<le> t + debounceAfter"
    by (rule loop_pending_cover [OF srt inv])
  obtain rest where hd: "addFileWatcher_loop timerFirst (Some (e + debounceAfter)) es' =
        (e + debounceAfter) # rest"
    using loop_pending_head by blast
  have "\<exists>c \<in> set (addFileWatcher_loop timerFirst (Some (e + debounceAfter)) es').
        e \<le> c \<and> c \<le> e + debounceAfter"
    unfolding hd by simp
  with ih show ?thesis unfolding Cons by auto
qed

lemma loop_pending_from_events:
  "set (addFileWatcher_loop timerFirst (Some d) es) \<subseteq> insert d ((\<lambda>e. e + debounceAfter) ` set es)"
proof (induction es arbitrary: d)
  case Nil
  show ?case by simp
next
  case (Cons e es)
  show ?case using Cons.IH [of d] Cons.IH [of "e + debounceAfter"] by auto
qed

lemma loop_from_events:
  "set (addFileWatcher_loop timerFirst None es) \<subseteq> (\<lambda>e. e + debounceAfter) ` set es"
  using loop_pending_from_events [of timerFirst "hd es + debounceAfter" "tl es"]
  by (cases es) auto

lemma loop_pending_spaced:
  "sorted_wrt (\<lambda>x y. x + debounceAfter \<le> y) (addFileWatcher_loop timerFirst (Some d) es) \<and>
   (\<forall>c \<in> set (addFileWatcher_loop timerFirst (Some d) es). d \<le> c)"
proof (induction es arbitrary: d)
  case Nil
  show ?case by simp
next
  case (Cons e es)
  show ?case
  proof (cases "d < e \<or> (d = e \<and> timerFirst)")
    case True
    then have eq: "addFileWatcher_loop timerFirst (Some d) (e # es) =
        d # addFileWatcher_loop timerFirst (Some (e + debounceAfter)) es"
      by simp
    have "\<forall>c \<in> set (addFileWatcher_loop timerFirst (Some (e + debounceAfter)) es). d + debounceAfter \<le> c"
      using Cons.IH [of "e + debounceAfter"] True by fastforce
    then show ?thesis unfolding eq using Cons.IH [of "e + debounceAfter"] by fastforce
  next
    case False
    then have eq: "addFileWatcher_loop timerFirst (Some d) (e # es) =
        addFileWatcher_loop timerFirst (Some d) es"
      by auto
    show ?thesis unfolding eq by (rule Cons.IH)
  qed
qed

lemma loop_spaced:
  "sorted_wrt (\<lambda>x y. x + debounceAfter \<le> y) (addFileWatcher_loop timerFirst None es)"
  using loop_pending_spaced [of timerFirst "hd es + debounceAfter" "tl es"]
  by (cases es) auto

lemma loop_pending_once:
  "count_list (addFileWatcher_loop timerFirst (Some d) es) d = 1"
proof -
  obtain rest where hd: "addFileWatcher_loop timerFirst (Some d) es = d # rest"
    using loop_pending_head by blast
  have "sorted_wrt (\<lambda>x y. x + debounceAfter \<le> y) (d # rest)"
    using loop_pending_spaced [of timerFirst d es] unfolding hd by simp
  then have "\<forall>c \<in> set rest. d + debounceAfter \<le> c" by simp
  then have "d \<notin> set rest" by (auto simp add: debounceAfter_def)
  then show ?thesis unfolding hd by (simp add: count_list_0_iff)
qed

text \<open>
  Claim C6, amended. The debounce time is 100 ms. An event that finds no timer pending
  arms it to fire \<open>debounceAfter\<close> later; an event that arrives before a pending timer
  fires leaves the timer as it is, and so does an event that arrives at the very time the
  timer fires when the \<open>select\<close> takes the event first; when it takes the timer first, or
  when the timer fires before the event, the callback is called and the event arms the
  timer anew. A pending timer fires in every case, and the callback is called exactly
  once for it. So the calls of the callback are those of the debounce in windows; every
  call comes \<open>debounceAfter\<close> after an event of the file; two calls are at least
  \<open>debounceAfter\<close> apart; and when the events arrive in the order of their times, every
  event is followed by a call no later than \<open>debounceAfter\<close> after it. Hence a burst of
  events in which every event after the first arrives less than \<open>debounceAfter\<close> after
  the first one causes exactly one call of the callback, \<open>debounceAfter\<close> after the first
  event. The calls of the callback of a file depend on the events of this file only: an
  event on another path does not change them.
\<close>

theorem debounce_collapses_burst:
  "debounceAfter = 100 \<and>
   addFileWatcher_loop timerFirst None (e # es) =
     addFileWatcher_loop timerFirst (Some (e + debounceAfter)) es \<and>
   (e < d \<longrightarrow>
      addFileWatcher_loop timerFirst (Some d) (e # es) = addFileWatcher_loop timerFirst (Some d) es) \<and>
   (d < e \<longrightarrow>
      addFileWatcher_loop timerFirst (Some d) (e # es) =
        d # addFileWatcher_loop timerFirst None (e # es)) \<and>
   addFileWatcher_loop timerFirst (Some d) (d # es) =
     (if timerFirst then d # addFileWatcher_loop timerFirst None (d # es)
      else addFileWatcher_loop timerFirst (Some d) es) \<and>
   addFileWatcher_loop timerFirst (Some d) [] = [d] \<and>
   hd (addFileWatcher_loop timerFirst (Some d) es) = d \<and>
   count_list (addFileWatcher_loop timerFirst (Some d) es) d = 1 \<and>
   callbackTimes timerFirst evs path = debounceWindows timerFirst (eventsOf path evs) \<and>
   set (callbackTimes timerFirst evs path) \<subseteq> (\<lambda>t. t + debounceAfter) ` set (eventsOf path evs) \<and>
   sorted_wrt (\<lambda>x y. x + debounceAfter \<le> y) (callbackTimes timerFirst evs path) \<and>
   (sorted (eventsOf path evs) \<longrightarrow>
      (\<forall>t \<in> set (eventsOf path evs). \<exists>c \<in> set (callbackTimes timerFirst evs path).
         t \<le> c \<and> c \<le> t + debounceAfter)) \<and>
   ((\<forall>t \<in> set es. t < e + debounceAfter) \<longrightarrow>
      addFileWatcher_loop timerFirst None (e # es) = [e + debounceAfter]) \<and>
   (q \<noteq> path \<longrightarrow>
      callbackTimes timerFirst (evs1 @ (q, t) # evs2) path = callbackTimes timerFirst (evs1 @ evs2) path)"
proof -
  have h: "hd (addFileWatcher_loop timerFirst (Some d) es) = d"
    using loop_pending_head [of timerFirst d es] by auto
  have w: "callbackTimes timerFirst evs path = debounceWindows timerFirst (eventsOf path evs)"
    by (simp add: callbackTimes_def loop_windows)
  have f: "set (callbackTimes timerFirst evs path) \<subseteq> (\<lambda>t. t + debounceAfter) ` set (eventsOf path evs)"
    unfolding callbackTimes_def by (rule loop_from_events)
  have s: "sorted_wrt (\<lambda>x y. x + debounceAfter \<le> y) (callbackTimes timerFirst evs path)"
    unfolding callbackTimes_def by (rule loop_spaced)
  have c: "sorted (eventsOf path evs) \<longrightarrow>
      (\<forall>t \<in> set (eventsOf path evs). \<exists>c \<in> set (callbackTimes timerFirst evs path).
         t \<le> c \<and> c \<le> t + debounceAfter)"
    unfolding callbackTimes_def using loop_cover by blast
  have b: "(\<forall>t \<in> set es. t < e + debounceAfter) \<longrightarrow>
      addFileWatcher_loop timerFirst None (e # es) = [e + debounceAfter]"
    by (simp add: pending_burst)
  have i: "q \<noteq> path \<longrightarrow>
      callbackTimes timerFirst (evs1 @ (q, t) # evs2) path = callbackTimes timerFirst (evs1 @ evs2) path"
    by (simp add: callbackTimes_def eventsOf_other)
  have t: "addFileWatcher_loop timerFirst (Some d) (d # es) =
     (if timerFirst then d # addFileWatcher_loop timerFirst None (d # es)
      else addFileWatcher_loop timerFirst (Some d) es)"
    by simp
  have r: "debounceAfter = 100 \<and>
   addFileWatcher_loop timerFirst None (e # es) =
     addFileWatcher_loop timerFirst (Some (e + debounceAfter)) es \<and>
   (e < d \<longrightarrow>
      addFileWatcher_loop timerFirst (Some d) (e # es) = addFileWatcher_loop timerFirst (Some d) es) \<and>
   (d < e \<longrightarrow>
      addFileWatcher_loop timerFirst (Some d) (e # es) =
        d # addFileWatcher_loop timerFirst None (e # es))"
    by (simp add: debounceAfter_def)
  have n: "addFileWatcher_loop timerFirst (Some d) [] = [d]" by simp
  from r t n h loop_pending_once [of timerFirst d es] w f s c b i show ?thesis by blast
qed

theorem debounce_collapses_burst_witness:
  "addFileWatcher_loop False (Some 100) [60, 120] = addFileWatcher_loop False (Some 100) [120] \<and>
   addFileWatcher_loop False (Some 100) [120] = 100 # addFileWatcher_loop False None [120] \<and>
   addFileWatcher_loop False None [0, 30, 60, 99] = [100] \<and>
   addFileWatcher_loop False None [0, 100] = [100] \<and>
   addFileWatcher_loop True None [0, 100] = [100, 200] \<and>
   sorted (eventsOf ''mesh'' [(''mesh'', 0), (''networks'', 10), (''mesh'', 60), (''mesh'', 120)]) \<and>
   (\<exists>c \<in> set (callbackTimes False [(''mesh'', 0), (''networks'', 10), (''mesh'', 60), (''mesh'', 120)] ''mesh'').
      120 \<le> c \<and> c \<le> 120 + debounceAfter) \<and>
   callbackTimes False [(''mesh'', 0), (''networks'', 10), (''mesh'', 60), (''mesh'', 120)] ''mesh'' =
     [100, 220] \<and>
   callbackTimes False [(''mesh'', 0), (''networks'', 10), (''mesh'', 50)] ''mesh'' =
     callbackTimes False [(''mesh'', 0), (''mesh'', 50)] ''mesh'' \<and>
   callbackTimes False [(''mesh'', 0), (''networks'', 10), (''mesh'', 50)] ''mesh'' = [100] \<and>
   callbackTimes False [(''mesh'', 0), (''networks'', 10), (''mesh'', 50)] ''networks'' = [110]"
proof -
  let ?evs = "[(''mesh'', 0), (''networks'', 10), (''mesh'', 60), (''mesh'', 120)] :: (string \<times> nat) list"
  have a: "addFileWatcher_loop False (Some 100) [60, 120] = addFileWatcher_loop False (Some 100) [120]"
    using debounce_collapses_burst [of False 60 "[120]" 100] by (simp add: debounceAfter_def)
  have b: "addFileWatcher_loop False (Some 100) [120] = 100 # addFileWatcher_loop False None [120]"
    using debounce_collapses_burst [of False 120 "[]" 100] by (simp add: debounceAfter_def)
  have c: "addFileWatcher_loop False None [0, 30, 60, 99] = [100]"
    using debounce_collapses_burst [of False 0 "[30, 60, 99]"] by (simp add: debounceAfter_def)
  have t1: "addFileWatcher_loop False None [0, 100] = [100]"
    using debounce_collapses_burst [where timerFirst = False and e = 0 and es = "[100]"] by (simp add: debounceAfter_def)
  have t2a: "addFileWatcher_loop True (Some 100) [100] =
      (if True then 100 # addFileWatcher_loop True None [100]
       else addFileWatcher_loop True (Some 100) [])"
    using debounce_collapses_burst [where timerFirst = True and d = 100 and es = "[]"] by blast
  have t2: "addFileWatcher_loop True None [0, 100] = [100, 200]"
    using t2a by (simp add: debounceAfter_def)
  have ev: "eventsOf ''mesh'' ?evs = [0, 60, 120]" by (simp add: eventsOf_def)
  have srt: "sorted (eventsOf ''mesh'' ?evs)" unfolding ev by simp
  have cov: "\<exists>c \<in> set (callbackTimes False ?evs ''mesh''). 120 \<le> c \<and> c \<le> 120 + debounceAfter"
    using debounce_collapses_burst [where timerFirst = False and evs = ?evs and path = "''mesh''"] srt unfolding ev by simp
  have win: "callbackTimes False ?evs ''mesh'' = [100, 220]"
    using debounce_collapses_burst [where timerFirst = False and evs = ?evs and path = "''mesh''"] unfolding ev
    by (simp add: debounceAfter_def)
  have ne: "''networks'' \<noteq> ''mesh''" by simp
  have d: "callbackTimes False [(''mesh'', 0), (''networks'', 10), (''mesh'', 50)] ''mesh'' =
     callbackTimes False [(''mesh'', 0), (''mesh'', 50)] ''mesh''"
    using debounce_collapses_burst [where timerFirst = False and path = "''mesh''" and q = "''networks''"
        and ?evs1.0 = "[(''mesh'', 0)]" and t = 10 and ?evs2.0 = "[(''mesh'', 50)]"
        and e = 0 and es = "[]" and d = 0 and evs = "[]"] ne
    by simp
  have e: "callbackTimes False [(''mesh'', 0), (''networks'', 10), (''mesh'', 50)] ''mesh'' = [100]"
    "callbackTimes False [(''mesh'', 0), (''networks'', 10), (''mesh'', 50)] ''networks'' = [110]"
    by (simp_all add: callbackTimes_def eventsOf_def debounceAfter_def)
  from a b c t1 t2 srt cov win d e show ?thesis by (intro conjI)
qed

subsection \<open>Serving waits for the caches\<close>






end
